theory Spec2Isabelle
  imports Complex_Main "HOL-Library.Word"
begin

unbundle bit_operations_syntax

section \<open>The window control adapter of \<^verbatim>\<open>windows/native_window.cpp\<close>\<close>

text \<open>
  The source is one C++ class, \<^verbatim>\<open>NativeWindow\<close>, whose methods unpack a
  \<^verbatim>\<open>flutter::EncodableMap\<close> and call the Win32 window API on the application's
  top-level window. The embedding has three layers:
  \<^item> the values the methods exchange with their caller (\<open>EncodableValue\<close>, doubles,
    \<open>RECT\<close>, \<open>POINT\<close>) and the ways a method can end without returning;
  \<^item> a model of the window as the Win32 calls of the source see it. Win32 is not part of
    the repository: the model states what each call is taken to do, and records every
    call in a log so that the order of the calls can be spoken about;
  \<^item> the methods themselves, one definition per method, each written statement by
    statement after the source, on the object's fields and the window.
\<close>

subsection \<open>Machine integers, rectangles and points\<close>

type_synonym LONG = "32 word"
type_synonym UINT = "32 word"
type_synonym wstring = "16 word list"

text \<open>
  \<^verbatim>\<open>LONG\<close> is a signed 32-bit integer: \<open>sint\<close> reads it. \<open>rc_right r - rc_left r\<close>
  wraps around as the compiled code does.
\<close>

record RECT =
  rc_left :: LONG
  rc_top :: LONG
  rc_right :: LONG
  rc_bottom :: LONG

record POINT =
  pt_x :: LONG
  pt_y :: LONG

subsection \<open>Doubles\<close>

text \<open>
  A \<^verbatim>\<open>double\<close> is an IEEE 754 binary64 value: a finite number, negative zero, an
  infinity or NaN. \<open>Finite 0\<close> is positive zero. \<open>Finite r\<close> stands for a binary64 value
  when \<open>r\<close> is one of the numbers the format holds (\<open>is_double\<close> below).
\<close>

datatype double = Finite real | NegZero | PosInf | NegInf | NaN

fun signbit :: "double \<Rightarrow> bool" where
  "signbit (Finite r) = (r < 0)"
| "signbit NegZero = True"
| "signbit PosInf = False"
| "signbit NegInf = True"
| "signbit NaN = False"

fun magnitude :: "double \<Rightarrow> real" where
  "magnitude (Finite r) = \<bar>r\<bar>"
| "magnitude d = 0"

fun is_inf :: "double \<Rightarrow> bool" where
  "is_inf PosInf = True"
| "is_inf NegInf = True"
| "is_inf d = False"

fun is_zero :: "double \<Rightarrow> bool" where
  "is_zero (Finite r) = (r = 0)"
| "is_zero NegZero = True"
| "is_zero d = False"

definition mk_finite :: "bool \<Rightarrow> real \<Rightarrow> double" where
  "mk_finite neg m = (if m = 0 then (if neg then NegZero else Finite 0)
                      else Finite (if neg then - m else m))"

definition mk_inf :: "bool \<Rightarrow> double" where
  "mk_inf neg = (if neg then NegInf else PosInf)"

text \<open>
  Every arithmetic operation of the source is one binary64 operation (the compilers for
  the x64 and ARM64 targets of the embedder use no wider intermediate format): the exact
  result is rounded to the nearest number of the format, a tie to the one with an even
  significand.

  \<open>round_even\<close> rounds a real to the nearest integer, a tie to the even one.
  \<open>quantum_exp m\<close> is the exponent of the unit in the last place for a magnitude \<open>m\<close>: a
  significand has 53 bits, and below \<open>2 powi (- 1022)\<close> the numbers are subnormal, with
  the fixed unit \<open>2 powi (- 1074)\<close>. \<open>round_mag\<close> rounds a magnitude to a multiple of its
  unit. \<open>round64\<close> gives the rounded result its sign; a rounded magnitude of
  \<open>2 ^ 1024\<close> or more overflows to an infinity, and one of zero is a zero with the sign
  of the exact result.
\<close>

definition round_even :: "real \<Rightarrow> int" where
  "round_even y =
     (let f = \<lfloor>y\<rfloor>
      in if y - of_int f < 1 / 2 then f
         else if 1 / 2 < y - of_int f then f + 1
         else if even f then f else f + 1)"

definition quantum_exp :: "real \<Rightarrow> int" where
  "quantum_exp m = max \<lfloor>log 2 m\<rfloor> (- 1022) - 52"

definition round_mag :: "real \<Rightarrow> real" where
  "round_mag m = of_int (round_even (m / 2 powi quantum_exp m)) * 2 powi quantum_exp m"

definition round64 :: "bool \<Rightarrow> real \<Rightarrow> double" where
  "round64 neg m =
     (if 2 ^ 1024 \<le> round_mag m then mk_inf neg else mk_finite neg (round_mag m))"

text \<open>The numbers of the format: the magnitudes that rounding leaves as they are.\<close>

fun is_double :: "double \<Rightarrow> bool" where
  "is_double (Finite r) = (round_mag \<bar>r\<bar> = \<bar>r\<bar> \<and> \<bar>r\<bar> < 2 ^ 1024)"
| "is_double d = True"

text \<open>\<^verbatim>\<open>a * b\<close> on doubles.\<close>

definition dmul :: "double \<Rightarrow> double \<Rightarrow> double" where
  "dmul a b =
     (if a = NaN \<or> b = NaN then NaN
      else if is_inf a \<or> is_inf b then
        (if is_zero a \<or> is_zero b then NaN else mk_inf (signbit a \<noteq> signbit b))
      else round64 (signbit a \<noteq> signbit b) (magnitude a * magnitude b))"

text \<open>\<^verbatim>\<open>a / b\<close> on doubles: a zero divisor gives an infinity, or NaN for \<open>0 / 0\<close>.\<close>

definition ddiv :: "double \<Rightarrow> double \<Rightarrow> double" where
  "ddiv a b =
     (if a = NaN \<or> b = NaN then NaN
      else if is_inf a then (if is_inf b then NaN else mk_inf (signbit a \<noteq> signbit b))
      else if is_inf b then mk_finite (signbit a \<noteq> signbit b) 0
      else if is_zero b then
        (if is_zero a then NaN else mk_inf (signbit a \<noteq> signbit b))
      else round64 (signbit a \<noteq> signbit b) (magnitude a / magnitude b))"

text \<open>\<^verbatim>\<open>a >= 0\<close>: false for NaN, true for both zeros.\<close>

fun dge0 :: "double \<Rightarrow> bool" where
  "dge0 (Finite r) = (0 \<le> r)"
| "dge0 NegZero = True"
| "dge0 PosInf = True"
| "dge0 NegInf = False"
| "dge0 NaN = False"

text \<open>The implicit conversion of a \<^verbatim>\<open>LONG\<close> to \<^verbatim>\<open>double\<close> (exact).\<close>

definition double_of_LONG :: "LONG \<Rightarrow> double" where
  "double_of_LONG n = Finite (real_of_int (sint n))"

text \<open>The literal \<^verbatim>\<open>1.0f\<close>, converted to \<^verbatim>\<open>double\<close>.\<close>

definition one_f :: double where
  "one_f = Finite 1"

text \<open>
  \<^verbatim>\<open>static_cast<LONG>(d)\<close> and \<^verbatim>\<open>int(d)\<close>: the fractional part is discarded
  (truncation towards zero). The behaviour is undefined when the truncated value does
  not fit the 32-bit type, which includes the infinities and NaN: \<open>None\<close>.
\<close>

definition trunc :: "real \<Rightarrow> int" where
  "trunc r = (if 0 \<le> r then \<lfloor>r\<rfloor> else \<lceil>r\<rceil>)"

fun LONG_of_double :: "double \<Rightarrow> LONG option" where
  "LONG_of_double (Finite r) =
     (if - (2 ^ 31) \<le> trunc r \<and> trunc r < 2 ^ 31 then Some (word_of_int (trunc r)) else None)"
| "LONG_of_double NegZero = Some 0"
| "LONG_of_double d = None"

subsection \<open>Arguments and results of a method call\<close>

text \<open>
  \<^verbatim>\<open>flutter::EncodableValue\<close> is a \<^verbatim>\<open>std::variant\<close>; its alternatives are the
  constructors below (the custom alternative, which holds a \<^verbatim>\<open>std::any\<close>, and the
  list of \<^verbatim>\<open>float\<close> of later versions of the header are left out; no method of the
  source extracts either). An \<^verbatim>\<open>EncodableMap\<close> is a \<^verbatim>\<open>std::map\<close> from values to
  values.
\<close>

datatype EncodableValue =
    ENull
  | EBool bool
  | EInt32 "32 word"
  | EInt64 "64 word"
  | EDouble double
  | EString string
  | EUint8List "8 word list"
  | EInt32List "32 word list"
  | EInt64List "64 word list"
  | EFloat64List "double list"
  | EList "EncodableValue list"
  | EMap "(EncodableValue \<times> EncodableValue) list"

type_synonym EncodableMap = "EncodableValue \<rightharpoonup> EncodableValue"

text \<open>
  How a method ends when it does not return. The first five are what the C++ can do:
  \<^verbatim>\<open>std::map::at\<close> throws \<^verbatim>\<open>std::out_of_range\<close> on a missing key,
  \<^verbatim>\<open>std::get<T>\<close> throws \<^verbatim>\<open>std::bad_variant_access\<close> when the variant holds
  another alternative, \<^verbatim>\<open>std::wstring_convert\<close> throws \<^verbatim>\<open>std::range_error\<close>, a
  read of an indeterminate value or an out-of-range conversion is undefined behaviour,
  and \<^verbatim>\<open>ExitProcess\<close> ends the process. No method catches an exception. The last three
  are the structured errors the specification names; nothing in the source constructs
  them.
\<close>

datatype failure =
    out_of_range
  | bad_variant_access
  | range_error
  | undefined_behaviour
  | process_exit nat
  | InvalidArgument
  | WindowUnavailable
  | NativeCallFailed

text \<open>What a method returns: nothing, a \<^verbatim>\<open>bool\<close>, a \<^verbatim>\<open>std::string\<close> or a map.\<close>

datatype ret = Void | RetBool bool | RetString string | RetMap EncodableMap

text \<open>\<^verbatim>\<open>args.at(flutter::EncodableValue(key))\<close>\<close>

definition args_at :: "EncodableMap \<Rightarrow> string \<Rightarrow> failure + EncodableValue" where
  "args_at args key = (case args (EString key) of None \<Rightarrow> Inl out_of_range | Some v \<Rightarrow> Inr v)"

text \<open>\<^verbatim>\<open>std::get<bool>\<close>, \<^verbatim>\<open>std::get<double>\<close>, \<^verbatim>\<open>std::get<std::string>\<close>\<close>

definition get_bool :: "EncodableValue \<Rightarrow> failure + bool" where
  "get_bool v = (case v of EBool b \<Rightarrow> Inr b | _ \<Rightarrow> Inl bad_variant_access)"

definition get_double :: "EncodableValue \<Rightarrow> failure + double" where
  "get_double v = (case v of EDouble d \<Rightarrow> Inr d | _ \<Rightarrow> Inl bad_variant_access)"

definition get_string :: "EncodableValue \<Rightarrow> failure + string" where
  "get_string v = (case v of EString s \<Rightarrow> Inr s | _ \<Rightarrow> Inl bad_variant_access)"

text \<open>
  The composed extractions \<^verbatim>\<open>std::get<T>(args.at(EncodableValue(key)))\<close>: the lookup is
  evaluated first, so a missing key is reported before a wrong alternative.
\<close>

definition arg_bool :: "EncodableMap \<Rightarrow> string \<Rightarrow> failure + bool" where
  "arg_bool args key = (case args_at args key of Inl e \<Rightarrow> Inl e | Inr v \<Rightarrow> get_bool v)"

definition arg_double :: "EncodableMap \<Rightarrow> string \<Rightarrow> failure + double" where
  "arg_double args key = (case args_at args key of Inl e \<Rightarrow> Inl e | Inr v \<Rightarrow> get_double v)"

definition arg_string :: "EncodableMap \<Rightarrow> string \<Rightarrow> failure + string" where
  "arg_string args key = (case args_at args key of Inl e \<Rightarrow> Inl e | Inr v \<Rightarrow> get_string v)"

subsection \<open>The window, as the Win32 calls of the source see it\<close>

text \<open>
  What the model takes Win32 to do, for the calls the source makes:
  \<^item> a call on a handle that stands for no window fails and changes nothing;
  \<^item> the show state of a window (minimized, maximized, normal) is the two bits
    \<^verbatim>\<open>WS_MINIMIZE\<close> and \<^verbatim>\<open>WS_MAXIMIZE\<close> of its style word, which
    \<^verbatim>\<open>SetWindowLongPtr\<close> replaces as a whole without moving or sizing the window;
  \<^item> \<^verbatim>\<open>SetWindowPos\<close> moves and sizes the window as asked, also when it is passed
    \<^verbatim>\<open>SWP_SHOWWINDOW\<close>;
  \<^item> a show command changes the rectangle only when it changes the show state.
\<close>

text \<open>
  The constants of \<^verbatim>\<open>windows.h\<close> that the source names, with their values in the
  Windows SDK.
\<close>

definition SW_HIDE :: UINT where "SW_HIDE = 0"
definition SW_NORMAL :: UINT where "SW_NORMAL = 1"
definition SW_SHOWMINIMIZED :: UINT where "SW_SHOWMINIMIZED = 2"
definition SW_MAXIMIZE :: UINT where "SW_MAXIMIZE = 3"
definition SW_SHOW :: UINT where "SW_SHOW = 5"
definition SW_RESTORE :: UINT where "SW_RESTORE = 9"

definition SWP_NOSIZE :: UINT where "SWP_NOSIZE = 0x0001"
definition SWP_NOMOVE :: UINT where "SWP_NOMOVE = 0x0002"
definition SWP_SHOWWINDOW :: UINT where "SWP_SHOWWINDOW = 0x0040"

definition WS_POPUP :: "32 word" where "WS_POPUP = 0x80000000"
definition WS_MINIMIZE :: "32 word" where "WS_MINIMIZE = 0x20000000"
definition WS_VISIBLE :: "32 word" where "WS_VISIBLE = 0x10000000"
definition WS_MAXIMIZE :: "32 word" where "WS_MAXIMIZE = 0x01000000"
definition WS_CAPTION :: "32 word" where "WS_CAPTION = 0x00C00000"
definition WS_OVERLAPPEDWINDOW :: "32 word" where "WS_OVERLAPPEDWINDOW = 0x00CF0000"
definition WS_EX_TOPMOST :: "32 word" where "WS_EX_TOPMOST = 0x00000008"

definition WM_SYSCOMMAND :: UINT where "WM_SYSCOMMAND = 0x0112"
definition SC_MOVE :: "32 word" where "SC_MOVE = 0xF010"
definition HTCAPTION :: "32 word" where "HTCAPTION = 2"

definition STATE_NORMAL :: "32 word" where "STATE_NORMAL = 0"
definition STATE_MAXIMIZED :: "32 word" where "STATE_MAXIMIZED = 1"
definition STATE_MINIMIZED :: "32 word" where "STATE_MINIMIZED = 2"
definition STATE_FULLSCREEN_ENTERED :: "32 word" where "STATE_FULLSCREEN_ENTERED = 3"

text \<open>
  A window handle is null or the handle of the root window; the window-long index is one
  of the two the source passes; the z-order argument of \<^verbatim>\<open>SetWindowPos\<close> is one of the
  three the source passes (\<^verbatim>\<open>NULL\<close> is \<^verbatim>\<open>HWND_TOP\<close>).
\<close>

datatype HWND = HWND_NULL | HWND_ROOT
datatype HMONITOR = MONITOR_NEAREST
datatype gwl_index = GWL_STYLE | GWL_EXSTYLE
datatype insert_after = HWND_TOP | HWND_TOPMOST | HWND_NOTOPMOST

text \<open>
  The window: its screen rectangle, the rectangle it has when neither minimized nor
  maximized, its style and extended style words, and its text.
\<close>

record window =
  rect :: RECT
  normal_position :: RECT
  style :: "32 word"
  ex_style :: "32 word"
  window_text :: wstring

text \<open>
  The members of \<^verbatim>\<open>WINDOWPLACEMENT\<close> and \<^verbatim>\<open>MONITORINFO\<close> the model keeps. The
  source reads and writes \<^verbatim>\<open>showCmd\<close> and \<^verbatim>\<open>rcMonitor\<close> only.
\<close>

record WINDOWPLACEMENT =
  showCmd :: UINT
  rcNormalPosition :: RECT

record MONITORINFO =
  rcMonitor :: RECT

text \<open>The calls, as the log records them.\<close>

datatype api_call =
    Call_GetAncestor
  | Call_SetForegroundWindow HWND
  | Call_ShowWindowAsync HWND UINT
  | Call_ShowWindow HWND UINT
  | Call_IsWindowVisible HWND
  | Call_GetWindowPlacement HWND
  | Call_SetWindowPlacement HWND WINDOWPLACEMENT
  | Call_MonitorFromWindow HWND
  | Call_GetMonitorInfo HMONITOR
  | Call_SetWindowLongPtr HWND gwl_index "32 word"
  | Call_GetWindowRect HWND
  | Call_SetWindowPos HWND insert_after LONG LONG LONG LONG UINT
  | Call_GetWindowLong HWND gwl_index
  | Call_SetWindowLong HWND gwl_index "32 word"
  | Call_GetWindowTextLength HWND
  | Call_GetWindowText HWND nat
  | Call_SetWindowText HWND wstring
  | Call_ReleaseCapture
  | Call_SendMessage HWND UINT "32 word" "32 word"
  | Call_ExitProcess nat

text \<open>
  The desktop: the root window of the Flutter view (\<open>None\<close> when the view has no window,
  so that the handle does not resolve and every call on it fails), the bounds of the
  monitor nearest to the window, the rectangles the system gives a maximized and a
  minimized window, whether the window is the foreground window, whether the mouse is
  captured, and the log of the calls made so far, oldest first.
\<close>

record desktop =
  win :: "window option"
  nearest_monitor :: RECT
  maximized_rect :: RECT
  minimized_rect :: RECT
  foreground :: bool
  mouse_captured :: bool
  calls :: "api_call list"

definition logged :: "api_call \<Rightarrow> desktop \<Rightarrow> desktop" where
  "logged c s = s\<lparr>calls := calls s @ [c]\<rparr>"

text \<open>The window a handle stands for, and a change of it.\<close>

definition target :: "HWND \<Rightarrow> desktop \<Rightarrow> window option" where
  "target h s = (case h of HWND_NULL \<Rightarrow> None | HWND_ROOT \<Rightarrow> win s)"

definition on_window :: "HWND \<Rightarrow> (window \<Rightarrow> window) \<Rightarrow> desktop \<Rightarrow> desktop" where
  "on_window h f s = (case target h s of None \<Rightarrow> s | Some w \<Rightarrow> s\<lparr>win := Some (f w)\<rparr>)"

text \<open>
  The show state is held in the style word: \<^verbatim>\<open>WS_MINIMIZE\<close> and \<^verbatim>\<open>WS_MAXIMIZE\<close>.
\<close>

definition show_state :: "window \<Rightarrow> UINT" where
  "show_state w =
     (if style w AND WS_MINIMIZE \<noteq> 0 then SW_SHOWMINIMIZED
      else if style w AND WS_MAXIMIZE \<noteq> 0 then SW_MAXIMIZE
      else SW_NORMAL)"

text \<open>
  What a show command does to the window. The rectangle changes only when the show state
  does. Commands the source never passes leave the window as it is.
\<close>

definition apply_show :: "desktop \<Rightarrow> UINT \<Rightarrow> window \<Rightarrow> window" where
  "apply_show s cmd w =
     (if cmd = SW_HIDE then w\<lparr>style := style w AND NOT WS_VISIBLE\<rparr>
      else if cmd = SW_SHOW then w\<lparr>style := style w OR WS_VISIBLE\<rparr>
      else if cmd = SW_NORMAL \<or> cmd = SW_RESTORE then
        w\<lparr>rect := (if show_state w = SW_NORMAL then rect w else normal_position w),
          style := (style w OR WS_VISIBLE) AND NOT (WS_MINIMIZE OR WS_MAXIMIZE)\<rparr>
      else if cmd = SW_SHOWMINIMIZED then
        w\<lparr>rect := (if show_state w = SW_SHOWMINIMIZED then rect w else minimized_rect s),
          style := ((style w OR WS_VISIBLE) OR WS_MINIMIZE) AND NOT WS_MAXIMIZE\<rparr>
      else if cmd = SW_MAXIMIZE then
        w\<lparr>rect := (if show_state w = SW_MAXIMIZE then rect w else maximized_rect s),
          style := ((style w OR WS_VISIBLE) OR WS_MAXIMIZE) AND NOT WS_MINIMIZE\<rparr>
      else w)"

text \<open>
  What \<^verbatim>\<open>SetWindowPos\<close> does to the window: it moves it unless \<^verbatim>\<open>SWP_NOMOVE\<close>, sizes
  it unless \<^verbatim>\<open>SWP_NOSIZE\<close>, shows it with \<^verbatim>\<open>SWP_SHOWWINDOW\<close>, and sets or clears
  the topmost bit for \<^verbatim>\<open>HWND_TOPMOST\<close> and \<^verbatim>\<open>HWND_NOTOPMOST\<close>.
\<close>

definition set_pos ::
  "insert_after \<Rightarrow> LONG \<Rightarrow> LONG \<Rightarrow> LONG \<Rightarrow> LONG \<Rightarrow> UINT \<Rightarrow> window \<Rightarrow> window" where
  "set_pos after x y cx cy flags w =
     (let l = (if flags AND SWP_NOMOVE \<noteq> 0 then rc_left (rect w) else x);
          t = (if flags AND SWP_NOMOVE \<noteq> 0 then rc_top (rect w) else y);
          wd = (if flags AND SWP_NOSIZE \<noteq> 0 then rc_right (rect w) - rc_left (rect w) else cx);
          ht = (if flags AND SWP_NOSIZE \<noteq> 0 then rc_bottom (rect w) - rc_top (rect w) else cy);
          r = \<lparr>rc_left = l, rc_top = t, rc_right = l + wd, rc_bottom = t + ht\<rparr>
      in w\<lparr>rect := r,
           normal_position := (if show_state w = SW_NORMAL then r else normal_position w),
           style := (if flags AND SWP_SHOWWINDOW \<noteq> 0 then style w OR WS_VISIBLE else style w),
           ex_style := (case after of
                          HWND_TOP \<Rightarrow> ex_style w
                        | HWND_TOPMOST \<Rightarrow> ex_style w OR WS_EX_TOPMOST
                        | HWND_NOTOPMOST \<Rightarrow> ex_style w AND NOT WS_EX_TOPMOST)\<rparr>)"

definition set_long :: "gwl_index \<Rightarrow> 32 word \<Rightarrow> window \<Rightarrow> window" where
  "set_long idx v w = (case idx of GWL_STYLE \<Rightarrow> w\<lparr>style := v\<rparr> | GWL_EXSTYLE \<Rightarrow> w\<lparr>ex_style := v\<rparr>)"

definition get_long :: "gwl_index \<Rightarrow> window \<Rightarrow> 32 word" where
  "get_long idx w = (case idx of GWL_STYLE \<Rightarrow> style w | GWL_EXSTYLE \<Rightarrow> ex_style w)"

definition set_placement :: "desktop \<Rightarrow> WINDOWPLACEMENT \<Rightarrow> window \<Rightarrow> window" where
  "set_placement s p w =
     (let w1 = apply_show s (showCmd p) (w\<lparr>normal_position := rcNormalPosition p\<rparr>)
      in if show_state w1 = SW_NORMAL then w1\<lparr>rect := normal_position w1\<rparr> else w1)"

subsection \<open>The Win32 calls\<close>

text \<open>
  Each call appends itself to the log. A call on a handle that stands for no window fails
  and changes nothing. A call whose result no caller in the source reads returns the
  desktop only.
\<close>

text \<open>\<^verbatim>\<open>::GetAncestor(registrar->GetView()->GetNativeWindow(), GA_ROOT)\<close>\<close>

definition GetAncestor :: "desktop \<Rightarrow> HWND \<times> desktop" where
  "GetAncestor s =
     ((case win s of None \<Rightarrow> HWND_NULL | Some w \<Rightarrow> HWND_ROOT), logged Call_GetAncestor s)"

definition SetForegroundWindow :: "HWND \<Rightarrow> desktop \<Rightarrow> desktop" where
  "SetForegroundWindow h s =
     (let s' = logged (Call_SetForegroundWindow h) s
      in case target h s' of None \<Rightarrow> s' | Some w \<Rightarrow> s'\<lparr>foreground := True\<rparr>)"

definition ShowWindow :: "HWND \<Rightarrow> UINT \<Rightarrow> desktop \<Rightarrow> desktop" where
  "ShowWindow h cmd s = on_window h (apply_show s cmd) (logged (Call_ShowWindow h cmd) s)"

text \<open>
  \<^verbatim>\<open>ShowWindowAsync\<close> posts the show command to the window's thread; the model applies
  it at once.
\<close>

definition ShowWindowAsync :: "HWND \<Rightarrow> UINT \<Rightarrow> desktop \<Rightarrow> desktop" where
  "ShowWindowAsync h cmd s =
     on_window h (apply_show s cmd) (logged (Call_ShowWindowAsync h cmd) s)"

definition IsWindowVisible :: "HWND \<Rightarrow> desktop \<Rightarrow> bool \<times> desktop" where
  "IsWindowVisible h s =
     ((case target h s of None \<Rightarrow> False | Some w \<Rightarrow> style w AND WS_VISIBLE \<noteq> 0),
      logged (Call_IsWindowVisible h) s)"

text \<open>
  \<^verbatim>\<open>GetWindowPlacement\<close> fills the caller's structure; when it fails the structure is
  left as it was, which in every caller is an uninitialised local: \<open>None\<close>.
\<close>

definition GetWindowPlacement :: "HWND \<Rightarrow> desktop \<Rightarrow> WINDOWPLACEMENT option \<times> desktop" where
  "GetWindowPlacement h s =
     ((case target h s of
         None \<Rightarrow> None
       | Some w \<Rightarrow> Some \<lparr>showCmd = show_state w, rcNormalPosition = normal_position w\<rparr>),
      logged (Call_GetWindowPlacement h) s)"

definition SetWindowPlacement :: "HWND \<Rightarrow> WINDOWPLACEMENT \<Rightarrow> desktop \<Rightarrow> desktop" where
  "SetWindowPlacement h p s =
     on_window h (set_placement s p) (logged (Call_SetWindowPlacement h p) s)"

text \<open>With \<^verbatim>\<open>MONITOR_DEFAULTTONEAREST\<close> the call always returns a monitor.\<close>

definition MonitorFromWindow :: "HWND \<Rightarrow> desktop \<Rightarrow> HMONITOR \<times> desktop" where
  "MonitorFromWindow h s = (MONITOR_NEAREST, logged (Call_MonitorFromWindow h) s)"

definition GetMonitorInfo :: "HMONITOR \<Rightarrow> desktop \<Rightarrow> MONITORINFO \<times> desktop" where
  "GetMonitorInfo m s = (\<lparr>rcMonitor = nearest_monitor s\<rparr>, logged (Call_GetMonitorInfo m) s)"

definition SetWindowLongPtr :: "HWND \<Rightarrow> gwl_index \<Rightarrow> 32 word \<Rightarrow> desktop \<Rightarrow> desktop" where
  "SetWindowLongPtr h idx v s =
     on_window h (set_long idx v) (logged (Call_SetWindowLongPtr h idx v) s)"

definition SetWindowLong :: "HWND \<Rightarrow> gwl_index \<Rightarrow> 32 word \<Rightarrow> desktop \<Rightarrow> desktop" where
  "SetWindowLong h idx v s =
     on_window h (set_long idx v) (logged (Call_SetWindowLong h idx v) s)"

text \<open>\<^verbatim>\<open>GetWindowLong\<close> returns zero when it fails.\<close>

definition GetWindowLong :: "HWND \<Rightarrow> gwl_index \<Rightarrow> desktop \<Rightarrow> 32 word \<times> desktop" where
  "GetWindowLong h idx s =
     ((case target h s of None \<Rightarrow> 0 | Some w \<Rightarrow> get_long idx w),
      logged (Call_GetWindowLong h idx) s)"

text \<open>
  \<^verbatim>\<open>GetWindowRect\<close> returns \<^verbatim>\<open>FALSE\<close> and leaves the caller's rectangle as it was when
  it fails (\<open>None\<close>), else it stores the window's screen rectangle.
\<close>

definition GetWindowRect :: "HWND \<Rightarrow> desktop \<Rightarrow> RECT option \<times> desktop" where
  "GetWindowRect h s =
     ((case target h s of None \<Rightarrow> None | Some w \<Rightarrow> Some (rect w)),
      logged (Call_GetWindowRect h) s)"

definition SetWindowPos ::
  "HWND \<Rightarrow> insert_after \<Rightarrow> LONG \<Rightarrow> LONG \<Rightarrow> LONG \<Rightarrow> LONG \<Rightarrow> UINT \<Rightarrow> desktop \<Rightarrow> desktop" where
  "SetWindowPos h after x y cx cy flags s =
     on_window h (set_pos after x y cx cy flags)
       (logged (Call_SetWindowPos h after x y cx cy flags) s)"

definition GetWindowTextLength :: "HWND \<Rightarrow> desktop \<Rightarrow> nat \<times> desktop" where
  "GetWindowTextLength h s =
     ((case target h s of None \<Rightarrow> 0 | Some w \<Rightarrow> length (window_text w)),
      logged (Call_GetWindowTextLength h) s)"

text \<open>
  \<^verbatim>\<open>GetWindowText(h, buffer, n)\<close> copies at most \<open>n - 1\<close> characters of the text into the
  buffer and terminates them with a null character; the rest of the buffer stays.
\<close>

definition GetWindowText :: "HWND \<Rightarrow> wstring \<Rightarrow> nat \<Rightarrow> desktop \<Rightarrow> wstring \<times> desktop" where
  "GetWindowText h buffer n s =
     ((case target h s of
         None \<Rightarrow> buffer
       | Some w \<Rightarrow>
           (let t = take (n - 1) (window_text w)
            in if n = 0 then buffer else t @ [0] @ drop (length t + 1) buffer)),
      logged (Call_GetWindowText h n) s)"

definition SetWindowText :: "HWND \<Rightarrow> wstring \<Rightarrow> desktop \<Rightarrow> desktop" where
  "SetWindowText h t s =
     on_window h (\<lambda>w. w\<lparr>window_text := t\<rparr>) (logged (Call_SetWindowText h t) s)"

definition ReleaseCapture :: "desktop \<Rightarrow> desktop" where
  "ReleaseCapture s = (logged Call_ReleaseCapture s)\<lparr>mouse_captured := False\<rparr>"

text \<open>
  \<^verbatim>\<open>SendMessage\<close> with \<^verbatim>\<open>WM_SYSCOMMAND\<close> starts the interactive move of the window.
  Where the user drops the window is not part of the model: the call is logged and the
  window stays.
\<close>

definition SendMessage :: "HWND \<Rightarrow> UINT \<Rightarrow> 32 word \<Rightarrow> 32 word \<Rightarrow> desktop \<Rightarrow> desktop" where
  "SendMessage h msg wParam lParam s = logged (Call_SendMessage h msg wParam lParam) s"

definition ExitProcess :: "nat \<Rightarrow> desktop \<Rightarrow> desktop" where
  "ExitProcess code s = logged (Call_ExitProcess code) s"

subsection \<open>The adapter object\<close>

text \<open>
  The data members of \<^verbatim>\<open>NativeWindow\<close>. The pointer \<^verbatim>\<open>registrar\<close> is set by the
  constructor and never again; what it resolves to is the \<open>win\<close> of the desktop.
  \<^verbatim>\<open>g_frame_before_fullscreen\<close> is declared without an initializer: \<open>None\<close> is the
  indeterminate value it holds until it is written.
\<close>

record NativeWindow =
  last_state :: "32 word"
  minimum_size :: POINT
  maximum_size :: POINT
  g_is_window_fullscreen :: bool
  g_frame_before_fullscreen :: "RECT option"

text \<open>The object after its constructor, with the default member initializers.\<close>

definition NativeWindow_new :: NativeWindow where
  "NativeWindow_new =
     \<lparr>last_state = STATE_NORMAL,
      minimum_size = \<lparr>pt_x = 0, pt_y = 0\<rparr>,
      maximum_size = \<lparr>pt_x = - 1, pt_y = - 1\<rparr>,
      g_is_window_fullscreen = False,
      g_frame_before_fullscreen = None\<rparr>"

text \<open>
  The two conversions of \<^verbatim>\<open>std::wstring_convert<std::codecvt_utf8_utf16<wchar_t>>\<close>, taken
  as a parameter: \<open>None\<close> is the \<^verbatim>\<open>std::range_error\<close> it throws on a sequence it cannot
  convert.
\<close>

record codec =
  from_bytes :: "string \<Rightarrow> wstring option"
  to_bytes :: "wstring \<Rightarrow> string option"

text \<open>
  A method takes the object and the desktop and gives back how it ended, the object and
  the desktop.
\<close>

type_synonym outcome = "(failure + ret) \<times> NativeWindow \<times> desktop"

subsection \<open>The methods\<close>

definition GetMainWindow :: "NativeWindow \<Rightarrow> desktop \<Rightarrow> HWND \<times> desktop" where
  "GetMainWindow this s = GetAncestor s"

definition Focus :: "NativeWindow \<Rightarrow> desktop \<Rightarrow> outcome" where
  "Focus this s =
     (let (mainWindow, s1) = GetMainWindow this s;
          s2 = SetForegroundWindow mainWindow s1
      in (Inr Void, this, s2))"

definition Blur :: "NativeWindow \<Rightarrow> desktop \<Rightarrow> outcome" where
  "Blur this s = (Inr Void, this, s)"

definition Show :: "NativeWindow \<Rightarrow> desktop \<Rightarrow> outcome" where
  "Show this s =
     (let (mainWindow, s1) = GetMainWindow this s;
          s2 = ShowWindowAsync mainWindow SW_SHOW s1;
          (mainWindow', s3) = GetMainWindow this s2;
          s4 = SetForegroundWindow mainWindow' s3
      in (Inr Void, this, s4))"

definition Hide :: "NativeWindow \<Rightarrow> desktop \<Rightarrow> outcome" where
  "Hide this s =
     (let (mainWindow, s1) = GetMainWindow this s;
          s2 = ShowWindow mainWindow SW_HIDE s1
      in (Inr Void, this, s2))"

definition IsVisible :: "NativeWindow \<Rightarrow> desktop \<Rightarrow> outcome" where
  "IsVisible this s =
     (let (mainWindow, s1) = GetMainWindow this s;
          (isVisible, s2) = IsWindowVisible mainWindow s1
      in (Inr (RetBool isVisible), this, s2))"

text \<open>
  The five methods below declare a local \<^verbatim>\<open>WINDOWPLACEMENT\<close> without initializing it,
  pass it to \<^verbatim>\<open>GetWindowPlacement\<close> and read its \<^verbatim>\<open>showCmd\<close> without looking at
  the call's result: when the call failed the read is of an indeterminate value.
\<close>

definition IsMaximized :: "NativeWindow \<Rightarrow> desktop \<Rightarrow> outcome" where
  "IsMaximized this s =
     (let (mainWindow, s1) = GetMainWindow this s;
          (windowPlacement, s2) = GetWindowPlacement mainWindow s1
      in case windowPlacement of
           None \<Rightarrow> (Inl undefined_behaviour, this, s2)
         | Some p \<Rightarrow> (Inr (RetBool (showCmd p = SW_MAXIMIZE)), this, s2))"

definition Maximize :: "NativeWindow \<Rightarrow> desktop \<Rightarrow> outcome" where
  "Maximize this s =
     (let (mainWindow, s1) = GetMainWindow this s;
          (windowPlacement, s2) = GetWindowPlacement mainWindow s1
      in case windowPlacement of
           None \<Rightarrow> (Inl undefined_behaviour, this, s2)
         | Some p \<Rightarrow>
             if showCmd p \<noteq> SW_MAXIMIZE
             then (Inr Void, this, SetWindowPlacement mainWindow (p\<lparr>showCmd := SW_MAXIMIZE\<rparr>) s2)
             else (Inr Void, this, s2))"

definition Unmaximize :: "NativeWindow \<Rightarrow> desktop \<Rightarrow> outcome" where
  "Unmaximize this s =
     (let (mainWindow, s1) = GetMainWindow this s;
          (windowPlacement, s2) = GetWindowPlacement mainWindow s1
      in case windowPlacement of
           None \<Rightarrow> (Inl undefined_behaviour, this, s2)
         | Some p \<Rightarrow>
             if showCmd p \<noteq> SW_NORMAL
             then (Inr Void, this, SetWindowPlacement mainWindow (p\<lparr>showCmd := SW_NORMAL\<rparr>) s2)
             else (Inr Void, this, s2))"

definition IsMinimized :: "NativeWindow \<Rightarrow> desktop \<Rightarrow> outcome" where
  "IsMinimized this s =
     (let (mainWindow, s1) = GetMainWindow this s;
          (windowPlacement, s2) = GetWindowPlacement mainWindow s1
      in case windowPlacement of
           None \<Rightarrow> (Inl undefined_behaviour, this, s2)
         | Some p \<Rightarrow> (Inr (RetBool (showCmd p = SW_SHOWMINIMIZED)), this, s2))"

definition Minimize :: "NativeWindow \<Rightarrow> desktop \<Rightarrow> outcome" where
  "Minimize this s =
     (let (mainWindow, s1) = GetMainWindow this s;
          (windowPlacement, s2) = GetWindowPlacement mainWindow s1
      in case windowPlacement of
           None \<Rightarrow> (Inl undefined_behaviour, this, s2)
         | Some p \<Rightarrow>
             if showCmd p \<noteq> SW_SHOWMINIMIZED
             then (Inr Void, this,
                   SetWindowPlacement mainWindow (p\<lparr>showCmd := SW_SHOWMINIMIZED\<rparr>) s2)
             else (Inr Void, this, s2))"

definition Restore :: "NativeWindow \<Rightarrow> desktop \<Rightarrow> outcome" where
  "Restore this s =
     (let (mainWindow, s1) = GetMainWindow this s;
          (windowPlacement, s2) = GetWindowPlacement mainWindow s1
      in case windowPlacement of
           None \<Rightarrow> (Inl undefined_behaviour, this, s2)
         | Some p \<Rightarrow>
             if showCmd p \<noteq> SW_NORMAL
             then (Inr Void, this, SetWindowPlacement mainWindow (p\<lparr>showCmd := SW_NORMAL\<rparr>) s2)
             else (Inr Void, this, s2))"

definition IsFullScreen :: "NativeWindow \<Rightarrow> desktop \<Rightarrow> outcome" where
  "IsFullScreen this s = (Inr (RetBool (g_is_window_fullscreen this)), this, s)"

text \<open>
  \<^verbatim>\<open>SetFullScreen\<close>. On the entering branch \<^verbatim>\<open>GetWindowRect\<close> writes
  \<^verbatim>\<open>g_frame_before_fullscreen\<close> when it succeeds; its result is not looked at. On the
  leaving branch the members of \<^verbatim>\<open>g_frame_before_fullscreen\<close> are read to build the
  arguments of \<^verbatim>\<open>SetWindowPos\<close>, after the flag and the style have been written.
\<close>

definition SetFullScreen :: "NativeWindow \<Rightarrow> desktop \<Rightarrow> EncodableMap \<Rightarrow> outcome" where
  "SetFullScreen this s args =
     (case arg_bool args ''isFullScreen'' of
        Inl e \<Rightarrow> (Inl e, this, s)
      | Inr isFullScreen \<Rightarrow>
          (let (mainWindow, s1) = GetMainWindow this s;
               (windowPlacement, s2) = GetWindowPlacement mainWindow s1
           in if isFullScreen then
                (let (monitor, s3) = MonitorFromWindow mainWindow s2;
                     (info, s4) = GetMonitorInfo monitor s3;
                     s5 = SetWindowLongPtr mainWindow GWL_STYLE (WS_POPUP OR WS_VISIBLE) s4;
                     (captured, s6) = GetWindowRect mainWindow s5;
                     this' = (case captured of
                                None \<Rightarrow> this
                              | Some r \<Rightarrow> this\<lparr>g_frame_before_fullscreen := Some r\<rparr>);
                     s7 = SetWindowPos mainWindow HWND_TOP
                            (rc_left (rcMonitor info)) (rc_top (rcMonitor info))
                            (rc_right (rcMonitor info) - rc_left (rcMonitor info))
                            (rc_bottom (rcMonitor info) - rc_top (rcMonitor info))
                            SWP_SHOWWINDOW s6;
                     s8 = ShowWindow mainWindow SW_MAXIMIZE s7
                 in (Inr Void, this', s8))
              else
                (let this' = this\<lparr>g_is_window_fullscreen := False\<rparr>;
                     s3 = SetWindowLongPtr mainWindow GWL_STYLE
                            (WS_OVERLAPPEDWINDOW OR WS_VISIBLE) s2
                 in case g_frame_before_fullscreen this' of
                      None \<Rightarrow> (Inl undefined_behaviour, this', s3)
                    | Some f \<Rightarrow>
                        (let s4 = SetWindowPos mainWindow HWND_TOP
                                    (rc_left f) (rc_top f)
                                    (rc_right f - rc_left f) (rc_bottom f - rc_top f)
                                    SWP_SHOWWINDOW s3;
                             s5 = ShowWindow mainWindow SW_RESTORE s4
                         in (Inr Void, this', s5)))))"

definition GetBounds :: "NativeWindow \<Rightarrow> desktop \<Rightarrow> EncodableMap \<Rightarrow> outcome" where
  "GetBounds this s args =
     (case arg_double args ''devicePixelRatio'' of
        Inl e \<Rightarrow> (Inl e, this, s)
      | Inr devicePixelRatio \<Rightarrow>
          (let resultMap = Map.empty;
               (mainWindow, s1) = GetMainWindow this s;
               (queried, s2) = GetWindowRect mainWindow s1
           in case queried of
                None \<Rightarrow> (Inr (RetMap resultMap), this, s2)
              | Some r \<Rightarrow>
                  (let x = dmul (ddiv (double_of_LONG (rc_left r)) devicePixelRatio) one_f;
                       y = dmul (ddiv (double_of_LONG (rc_top r)) devicePixelRatio) one_f;
                       width = dmul (ddiv (double_of_LONG (rc_right r - rc_left r))
                                 devicePixelRatio) one_f;
                       height = dmul (ddiv (double_of_LONG (rc_bottom r - rc_top r))
                                  devicePixelRatio) one_f
                   in (Inr (RetMap (resultMap
                         (EString ''x'' \<mapsto> EDouble x,
                          EString ''y'' \<mapsto> EDouble y,
                          EString ''width'' \<mapsto> EDouble width,
                          EString ''height'' \<mapsto> EDouble height))), this, s2))))"

text \<open>
  \<^verbatim>\<open>SetBounds\<close>: the four products are converted with \<^verbatim>\<open>int(...)\<close> before the call.
\<close>

definition SetBounds :: "NativeWindow \<Rightarrow> desktop \<Rightarrow> EncodableMap \<Rightarrow> outcome" where
  "SetBounds this s args =
     (case arg_double args ''devicePixelRatio'' of
        Inl e \<Rightarrow> (Inl e, this, s)
      | Inr devicePixelRatio \<Rightarrow>
     (case arg_double args ''x'' of
        Inl e \<Rightarrow> (Inl e, this, s)
      | Inr x \<Rightarrow>
     (case arg_double args ''y'' of
        Inl e \<Rightarrow> (Inl e, this, s)
      | Inr y \<Rightarrow>
     (case arg_double args ''width'' of
        Inl e \<Rightarrow> (Inl e, this, s)
      | Inr width \<Rightarrow>
     (case arg_double args ''height'' of
        Inl e \<Rightarrow> (Inl e, this, s)
      | Inr height \<Rightarrow>
          (let (mainWindow, s1) = GetMainWindow this s
           in case (LONG_of_double (dmul x devicePixelRatio),
                    LONG_of_double (dmul y devicePixelRatio),
                    LONG_of_double (dmul width devicePixelRatio),
                    LONG_of_double (dmul height devicePixelRatio)) of
                (Some px, Some py, Some pw, Some ph) \<Rightarrow>
                  (Inr Void, this, SetWindowPos mainWindow HWND_TOP px py pw ph SWP_SHOWWINDOW s1)
              | _ \<Rightarrow> (Inl undefined_behaviour, this, s1)))))))"

definition SetMinimumSize :: "NativeWindow \<Rightarrow> desktop \<Rightarrow> EncodableMap \<Rightarrow> outcome" where
  "SetMinimumSize this s args =
     (case arg_double args ''devicePixelRatio'' of
        Inl e \<Rightarrow> (Inl e, this, s)
      | Inr devicePixelRatio \<Rightarrow>
     (case arg_double args ''width'' of
        Inl e \<Rightarrow> (Inl e, this, s)
      | Inr width \<Rightarrow>
     (case arg_double args ''height'' of
        Inl e \<Rightarrow> (Inl e, this, s)
      | Inr height \<Rightarrow>
          if dge0 width \<and> dge0 height then
            (case (LONG_of_double (dmul width devicePixelRatio),
                   LONG_of_double (dmul height devicePixelRatio)) of
               (Some px, Some py) \<Rightarrow>
                 (Inr Void, this\<lparr>minimum_size := \<lparr>pt_x = px, pt_y = py\<rparr>\<rparr>, s)
             | _ \<Rightarrow> (Inl undefined_behaviour, this, s))
          else (Inr Void, this, s))))"

definition SetMaximumSize :: "NativeWindow \<Rightarrow> desktop \<Rightarrow> EncodableMap \<Rightarrow> outcome" where
  "SetMaximumSize this s args =
     (case arg_double args ''devicePixelRatio'' of
        Inl e \<Rightarrow> (Inl e, this, s)
      | Inr devicePixelRatio \<Rightarrow>
     (case arg_double args ''width'' of
        Inl e \<Rightarrow> (Inl e, this, s)
      | Inr width \<Rightarrow>
     (case arg_double args ''height'' of
        Inl e \<Rightarrow> (Inl e, this, s)
      | Inr height \<Rightarrow>
          if dge0 width \<and> dge0 height then
            (case (LONG_of_double (dmul width devicePixelRatio),
                   LONG_of_double (dmul height devicePixelRatio)) of
               (Some px, Some py) \<Rightarrow>
                 (Inr Void, this\<lparr>maximum_size := \<lparr>pt_x = px, pt_y = py\<rparr>\<rparr>, s)
             | _ \<Rightarrow> (Inl undefined_behaviour, this, s))
          else (Inr Void, this, s))))"

definition IsAlwaysOnTop :: "NativeWindow \<Rightarrow> desktop \<Rightarrow> outcome" where
  "IsAlwaysOnTop this s =
     (let (mainWindow, s1) = GetMainWindow this s;
          (dwExStyle, s2) = GetWindowLong mainWindow GWL_EXSTYLE s1
      in (Inr (RetBool (dwExStyle AND WS_EX_TOPMOST \<noteq> 0)), this, s2))"

definition SetAlwaysOnTop :: "NativeWindow \<Rightarrow> desktop \<Rightarrow> EncodableMap \<Rightarrow> outcome" where
  "SetAlwaysOnTop this s args =
     (case arg_bool args ''isAlwaysOnTop'' of
        Inl e \<Rightarrow> (Inl e, this, s)
      | Inr isAlwaysOnTop \<Rightarrow>
          (let (mainWindow, s1) = GetMainWindow this s;
               s2 = SetWindowPos mainWindow
                      (if isAlwaysOnTop then HWND_TOPMOST else HWND_NOTOPMOST)
                      0 0 0 0 (SWP_NOMOVE OR SWP_NOSIZE) s1
           in (Inr Void, this, s2)))"

text \<open>
  \<^verbatim>\<open>GetTitle\<close>: the buffer holds the text and its terminating null character; the whole
  buffer is converted, and \<^verbatim>\<open>c_str()\<close> makes the returned string end before the first
  null byte.
\<close>

definition GetTitle :: "codec \<Rightarrow> NativeWindow \<Rightarrow> desktop \<Rightarrow> outcome" where
  "GetTitle converter this s =
     (let (mainWindow, s1) = GetMainWindow this s;
          (len, s2) = GetWindowTextLength mainWindow s1;
          bufferSize = 1 + len;
          title = replicate bufferSize 0;
          (mainWindow', s3) = GetMainWindow this s2;
          (title', s4) = GetWindowText mainWindow' title bufferSize s3
      in case to_bytes converter title' of
           None \<Rightarrow> (Inl range_error, this, s4)
         | Some bytes \<Rightarrow>
             (Inr (RetString (takeWhile (\<lambda>c. c \<noteq> CHR 0x00) bytes)), this, s4))"

text \<open>
  \<^verbatim>\<open>SetTitle\<close>: the title is converted before the first call on the window (the order
  of the two arguments' evaluation is not fixed by the language; the conversion has no
  effect on the window). \<^verbatim>\<open>c_str()\<close> makes the text end before the first null
  character.
\<close>

definition SetTitle :: "codec \<Rightarrow> NativeWindow \<Rightarrow> desktop \<Rightarrow> EncodableMap \<Rightarrow> outcome" where
  "SetTitle converter this s args =
     (case arg_string args ''title'' of
        Inl e \<Rightarrow> (Inl e, this, s)
      | Inr title \<Rightarrow>
          (case from_bytes converter title of
             None \<Rightarrow> (Inl range_error, this, s)
           | Some wide \<Rightarrow>
               (let (mainWindow, s1) = GetMainWindow this s;
                    s2 = SetWindowText mainWindow (takeWhile (\<lambda>c. c \<noteq> 0) wide) s1;
                    (mainWindow', s3) = GetMainWindow this s2;
                    (style', s4) = GetWindowLong mainWindow' GWL_STYLE s3;
                    (mainWindow'', s5) = GetMainWindow this s4;
                    s6 = SetWindowLong mainWindow'' GWL_STYLE (style' AND NOT WS_CAPTION) s5
                in (Inr Void, this, s6))))"

definition StartDragging :: "NativeWindow \<Rightarrow> desktop \<Rightarrow> outcome" where
  "StartDragging this s =
     (let s1 = ReleaseCapture s;
          (mainWindow, s2) = GetMainWindow this s1;
          s3 = SendMessage mainWindow WM_SYSCOMMAND (SC_MOVE OR HTCAPTION) 0 s2
      in (Inr Void, this, s3))"

definition Terminate :: "NativeWindow \<Rightarrow> desktop \<Rightarrow> outcome" where
  "Terminate this s = (Inl (process_exit 1), this, ExitProcess 1 s)"

subsection \<open>Calls and sequences of calls\<close>

text \<open>
  One constructor per public method, with the argument map of those that take one. The
  dispatcher that receives the calls from the method channel is not in the source file;
  \<open>exec\<close> only names which method a call runs.
\<close>

datatype method_call =
    CallFocus
  | CallBlur
  | CallShow
  | CallHide
  | CallIsVisible
  | CallIsMaximized
  | CallMaximize
  | CallUnmaximize
  | CallIsMinimized
  | CallMinimize
  | CallRestore
  | CallIsFullScreen
  | CallSetFullScreen EncodableMap
  | CallGetBounds EncodableMap
  | CallSetBounds EncodableMap
  | CallSetMinimumSize EncodableMap
  | CallSetMaximumSize EncodableMap
  | CallIsAlwaysOnTop
  | CallSetAlwaysOnTop EncodableMap
  | CallGetTitle
  | CallSetTitle EncodableMap
  | CallStartDragging
  | CallTerminate

fun exec :: "codec \<Rightarrow> method_call \<Rightarrow> NativeWindow \<Rightarrow> desktop \<Rightarrow> outcome" where
  "exec cv CallFocus this s = Focus this s"
| "exec cv CallBlur this s = Blur this s"
| "exec cv CallShow this s = Show this s"
| "exec cv CallHide this s = Hide this s"
| "exec cv CallIsVisible this s = IsVisible this s"
| "exec cv CallIsMaximized this s = IsMaximized this s"
| "exec cv CallMaximize this s = Maximize this s"
| "exec cv CallUnmaximize this s = Unmaximize this s"
| "exec cv CallIsMinimized this s = IsMinimized this s"
| "exec cv CallMinimize this s = Minimize this s"
| "exec cv CallRestore this s = Restore this s"
| "exec cv CallIsFullScreen this s = IsFullScreen this s"
| "exec cv (CallSetFullScreen args) this s = SetFullScreen this s args"
| "exec cv (CallGetBounds args) this s = GetBounds this s args"
| "exec cv (CallSetBounds args) this s = SetBounds this s args"
| "exec cv (CallSetMinimumSize args) this s = SetMinimumSize this s args"
| "exec cv (CallSetMaximumSize args) this s = SetMaximumSize this s args"
| "exec cv CallIsAlwaysOnTop this s = IsAlwaysOnTop this s"
| "exec cv (CallSetAlwaysOnTop args) this s = SetAlwaysOnTop this s args"
| "exec cv CallGetTitle this s = GetTitle cv this s"
| "exec cv (CallSetTitle args) this s = SetTitle cv this s args"
| "exec cv CallStartDragging this s = StartDragging this s"
| "exec cv CallTerminate this s = Terminate this s"

text \<open>
  After a C++ exception the object and the window are as the method left them, and a
  caller that catches it can go on calling; after undefined behaviour or the end of the
  process nothing more runs.
\<close>

fun resumable :: "failure + ret \<Rightarrow> bool" where
  "resumable (Inr v) = True"
| "resumable (Inl out_of_range) = True"
| "resumable (Inl bad_variant_access) = True"
| "resumable (Inl range_error) = True"
| "resumable (Inl e) = False"

text \<open>
  A sequence of calls on one object. The result is the object and the desktop where the
  sequence ended, and whether it ran to its end.
\<close>

fun run :: "codec \<Rightarrow> method_call list \<Rightarrow> NativeWindow \<Rightarrow> desktop
            \<Rightarrow> bool \<times> NativeWindow \<times> desktop" where
  "run cv [] this s = (True, this, s)"
| "run cv (c # cs) this s =
     (case exec cv c this s of
        (r, this', s') \<Rightarrow> if resumable r then run cv cs this' s' else (False, this', s'))"

text \<open>The three components of an outcome and of a run.\<close>

definition result_of :: "'a \<times> NativeWindow \<times> desktop \<Rightarrow> 'a" where
  "result_of out = fst out"

definition object_of :: "'a \<times> NativeWindow \<times> desktop \<Rightarrow> NativeWindow" where
  "object_of out = fst (snd out)"

definition desktop_of :: "'a \<times> NativeWindow \<times> desktop \<Rightarrow> desktop" where
  "desktop_of out = snd (snd out)"

subsection \<open>Vocabulary of the properties\<close>

text \<open>
  Whether a call is a call of \<^verbatim>\<open>SetFullScreen\<close> whose argument extraction succeeds
  with the given value: these are the calls that take the entering (\<open>True\<close>) or the
  leaving (\<open>False\<close>) branch.
\<close>

fun fullscreen_request :: "method_call \<Rightarrow> bool option" where
  "fullscreen_request (CallSetFullScreen args) =
     (case arg_bool args ''isFullScreen'' of Inl e \<Rightarrow> None | Inr b \<Rightarrow> Some b)"
| "fullscreen_request c = None"

text \<open>
  The table of required arguments of section 6 of the specification, and what it is for
  an argument map to hold every required key with a value of the required type.
\<close>

datatype arg_type = TBool | TDouble | TString

fun has_type :: "EncodableValue \<Rightarrow> arg_type \<Rightarrow> bool" where
  "has_type v TBool = (case v of EBool b \<Rightarrow> True | _ \<Rightarrow> False)"
| "has_type v TDouble = (case v of EDouble d \<Rightarrow> True | _ \<Rightarrow> False)"
| "has_type v TString = (case v of EString t \<Rightarrow> True | _ \<Rightarrow> False)"

fun required_args :: "method_call \<Rightarrow> (string \<times> arg_type) list" where
  "required_args (CallSetFullScreen args) = [(''isFullScreen'', TBool)]"
| "required_args (CallGetBounds args) = [(''devicePixelRatio'', TDouble)]"
| "required_args (CallSetBounds args) =
     [(''devicePixelRatio'', TDouble), (''x'', TDouble), (''y'', TDouble),
      (''width'', TDouble), (''height'', TDouble)]"
| "required_args (CallSetMinimumSize args) =
     [(''devicePixelRatio'', TDouble), (''width'', TDouble), (''height'', TDouble)]"
| "required_args (CallSetMaximumSize args) =
     [(''devicePixelRatio'', TDouble), (''width'', TDouble), (''height'', TDouble)]"
| "required_args (CallSetAlwaysOnTop args) = [(''isAlwaysOnTop'', TBool)]"
| "required_args (CallSetTitle args) = [(''title'', TString)]"
| "required_args c = []"

fun call_args :: "method_call \<Rightarrow> EncodableMap" where
  "call_args (CallSetFullScreen args) = args"
| "call_args (CallGetBounds args) = args"
| "call_args (CallSetBounds args) = args"
| "call_args (CallSetMinimumSize args) = args"
| "call_args (CallSetMaximumSize args) = args"
| "call_args (CallSetAlwaysOnTop args) = args"
| "call_args (CallSetTitle args) = args"
| "call_args c = Map.empty"

fun arg_ok :: "EncodableMap \<Rightarrow> string \<times> arg_type \<Rightarrow> bool" where
  "arg_ok args (key, ty) =
     (case args (EString key) of None \<Rightarrow> False | Some v \<Rightarrow> has_type v ty)"

definition well_formed :: "method_call \<Rightarrow> bool" where
  "well_formed c = list_all (arg_ok (call_args c)) (required_args c)"

text \<open>The methods that assign to a data member of the object.\<close>

fun field_writer :: "method_call \<Rightarrow> bool" where
  "field_writer (CallSetMinimumSize args) = True"
| "field_writer (CallSetMaximumSize args) = True"
| "field_writer (CallSetFullScreen args) = True"
| "field_writer c = False"

text \<open>
  The window-rectangle query and the placement query a method makes before anything
  else: the call on the handle \<^verbatim>\<open>GetMainWindow()\<close> returns.
\<close>

definition rect_query :: "NativeWindow \<Rightarrow> desktop \<Rightarrow> RECT option" where
  "rect_query this s =
     (let (mainWindow, s1) = GetMainWindow this s in fst (GetWindowRect mainWindow s1))"

definition placement_query :: "NativeWindow \<Rightarrow> desktop \<Rightarrow> WINDOWPLACEMENT option" where
  "placement_query this s =
     (let (mainWindow, s1) = GetMainWindow this s in fst (GetWindowPlacement mainWindow s1))"

text \<open>
  The calls a method added to the log, and two desktops that differ in their logs at
  most.
\<close>

definition new_calls :: "desktop \<Rightarrow> desktop \<Rightarrow> api_call list" where
  "new_calls s s' = drop (length (calls s)) (calls s')"

definition same_but_log :: "desktop \<Rightarrow> desktop \<Rightarrow> bool" where
  "same_but_log s s' = (s'\<lparr>calls := calls s\<rparr> = s)"

text \<open>
  The exception the extractions of a method raise, going through the required arguments
  in the order the source extracts them: \<^verbatim>\<open>std::out_of_range\<close> at the first
  missing key, \<^verbatim>\<open>std::bad_variant_access\<close> at the first value of another type.
\<close>

fun arg_failure :: "EncodableMap \<Rightarrow> (string \<times> arg_type) list \<Rightarrow> failure option" where
  "arg_failure args [] = None"
| "arg_failure args ((key, ty) # rest) =
     (case args (EString key) of
        None \<Rightarrow> Some out_of_range
      | Some v \<Rightarrow> if has_type v ty then arg_failure args rest else Some bad_variant_access)"

text \<open>
  The four steps the specification lists for entering fullscreen, as calls of the log:
  the capture of the rectangle, the switch of the style, the move and resize, and the
  maximizing show command.
\<close>

datatype step = Capture | StyleSwitch | Resize | MaximizeShow

fun step_of :: "api_call \<Rightarrow> step option" where
  "step_of (Call_GetWindowRect h) = Some Capture"
| "step_of (Call_SetWindowLongPtr h idx v) = (if idx = GWL_STYLE then Some StyleSwitch else None)"
| "step_of (Call_SetWindowPos h after x y cx cy flags) = Some Resize"
| "step_of (Call_ShowWindow h cmd) = (if cmd = SW_MAXIMIZE then Some MaximizeShow else None)"
| "step_of c = None"

definition steps :: "api_call list \<Rightarrow> step list" where
  "steps cs = List.map_filter step_of cs"

subsection \<open>Concrete objects, windows and argument maps\<close>

definition example_window :: window where
  "example_window =
     \<lparr>rect = \<lparr>rc_left = 100, rc_top = 100, rc_right = 900, rc_bottom = 700\<rparr>,
      normal_position = \<lparr>rc_left = 100, rc_top = 100, rc_right = 900, rc_bottom = 700\<rparr>,
      style = 0x10CF0000,
      ex_style = 0,
      window_text = [72, 105]\<rparr>"

definition example_desktop :: desktop where
  "example_desktop =
     \<lparr>win = Some example_window,
      nearest_monitor = \<lparr>rc_left = 0, rc_top = 0, rc_right = 1920, rc_bottom = 1080\<rparr>,
      maximized_rect = \<lparr>rc_left = 0, rc_top = 0, rc_right = 1920, rc_bottom = 1040\<rparr>,
      minimized_rect =
        \<lparr>rc_left = - 32000, rc_top = - 32000, rc_right = - 31840, rc_bottom = - 31972\<rparr>,
      foreground = False,
      mouse_captured = False,
      calls = []\<rparr>"

definition windowless_desktop :: desktop where
  "windowless_desktop = example_desktop\<lparr>win := None\<rparr>"

text \<open>A converter for texts of 7-bit characters, where both encodings agree.\<close>

definition ascii_codec :: codec where
  "ascii_codec =
     \<lparr>from_bytes = (\<lambda>bytes. if list_all (\<lambda>c. of_char c < (128 :: nat)) bytes
                              then Some (map (\<lambda>c. of_char c) bytes) else None),
      to_bytes = (\<lambda>wide. if list_all (\<lambda>u. u < 128) wide
                           then Some (map (\<lambda>u. char_of (unat u)) wide) else None)\<rparr>"

definition no_args :: EncodableMap where
  "no_args = Map.empty"

definition enter_args :: EncodableMap where
  "enter_args = [EString ''isFullScreen'' \<mapsto> EBool True]"

definition leave_args :: EncodableMap where
  "leave_args = [EString ''isFullScreen'' \<mapsto> EBool False]"

definition ratio_two_args :: EncodableMap where
  "ratio_two_args = [EString ''devicePixelRatio'' \<mapsto> EDouble (Finite 2)]"


definition wrong_type_args :: EncodableMap where
  "wrong_type_args = [EString ''isFullScreen'' \<mapsto> EDouble (Finite 1)]"

definition maximized_desktop :: desktop where
  "maximized_desktop =
     example_desktop\<lparr>win := Some (example_window
       \<lparr>rect := \<lparr>rc_left = 0, rc_top = 0, rc_right = 1920, rc_bottom = 1040\<rparr>,
        style := 0x11CF0000\<rparr>)\<rparr>"

definition fullscreen_object :: NativeWindow where
  "fullscreen_object = NativeWindow_new\<lparr>g_is_window_fullscreen := True\<rparr>"

definition entered_object :: NativeWindow where
  "entered_object =
     NativeWindow_new\<lparr>g_frame_before_fullscreen :=
       Some \<lparr>rc_left = 100, rc_top = 100, rc_right = 900, rc_bottom = 700\<rparr>\<rparr>"

definition ratio_three_args :: EncodableMap where
  "ratio_three_args = [EString ''devicePixelRatio'' \<mapsto> EDouble (Finite 3)]"


definition double_2_4 :: double where
  "double_2_4 = Finite (5404319552844595 / 2 ^ 51)"

section \<open>Properties\<close>

subsection \<open>Unfolding the model\<close>

lemmas sw_defs = SW_HIDE_def SW_NORMAL_def SW_SHOWMINIMIZED_def SW_MAXIMIZE_def SW_SHOW_def
  SW_RESTORE_def

lemmas swp_defs = SWP_NOSIZE_def SWP_NOMOVE_def SWP_SHOWWINDOW_def

lemmas ws_defs = WS_POPUP_def WS_MINIMIZE_def WS_VISIBLE_def WS_MAXIMIZE_def WS_CAPTION_def
  WS_OVERLAPPEDWINDOW_def WS_EX_TOPMOST_def

lemmas api_defs = GetAncestor_def SetForegroundWindow_def ShowWindow_def ShowWindowAsync_def
  IsWindowVisible_def GetWindowPlacement_def SetWindowPlacement_def MonitorFromWindow_def
  GetMonitorInfo_def SetWindowLongPtr_def SetWindowLong_def GetWindowLong_def GetWindowRect_def
  SetWindowPos_def GetWindowTextLength_def GetWindowText_def SetWindowText_def
  ReleaseCapture_def SendMessage_def ExitProcess_def

lemmas method_defs = GetMainWindow_def Focus_def Blur_def Show_def Hide_def IsVisible_def
  IsMaximized_def Maximize_def Unmaximize_def IsMinimized_def Minimize_def Restore_def
  IsFullScreen_def SetFullScreen_def GetBounds_def SetBounds_def SetMinimumSize_def
  SetMaximumSize_def IsAlwaysOnTop_def SetAlwaysOnTop_def GetTitle_def SetTitle_def
  StartDragging_def Terminate_def

lemmas arg_defs = arg_bool_def arg_double_def arg_string_def args_at_def get_bool_def
  get_double_def get_string_def

lemmas out_defs = result_of_def object_of_def desktop_of_def

lemmas os_defs = api_defs on_window_def target_def logged_def set_pos_def set_long_def
  get_long_def apply_show_def show_state_def set_placement_def

lemma desktop_of_triple: "desktop_of (r, this, s) = s"
  by (simp add: desktop_of_def)

lemma object_of_triple: "object_of (r, this, s) = this"
  by (simp add: object_of_def)

lemma result_of_triple: "result_of (r, this, s) = r"
  by (simp add: result_of_def)

subsection \<open>Which calls write which data members\<close>

lemma exec_keeps_object:
  "\<not> field_writer c \<Longrightarrow> object_of (exec cv c this s) = this"
  by (cases c)
     (simp_all add: method_defs out_defs Let_def split: prod.splits option.splits sum.splits)

lemma exec_last_state:
  "last_state (object_of (exec cv c this s)) = last_state this"
  by (cases c)
     (simp_all add: method_defs out_defs Let_def split: prod.splits option.splits sum.splits)

lemma exec_flag:
  "g_is_window_fullscreen (object_of (exec cv c this s)) =
     (if fullscreen_request c = Some False then False else g_is_window_fullscreen this)"
  by (cases c)
     (simp_all add: method_defs out_defs Let_def split: prod.splits option.splits sum.splits)

lemma exec_frame:
  "fullscreen_request c \<noteq> Some True \<Longrightarrow>
   g_frame_before_fullscreen (object_of (exec cv c this s)) = g_frame_before_fullscreen this"
  by (cases c)
     (simp_all add: method_defs out_defs Let_def split: prod.splits option.splits sum.splits)

text \<open>
  A property of the object that every call preserves is preserved by every sequence of
  calls, wherever the sequence stops.
\<close>

lemma run_preserves:
  assumes step: "\<And>c this s. P this \<Longrightarrow> P (object_of (exec cv c this s))"
  shows "P this \<Longrightarrow> P (object_of (run cv cs this s))"
proof (induction cs arbitrary: this s)
  case Nil
  then show ?case by (simp add: object_of_def)
next
  case (Cons c cs)
  obtain r this' s' where e: "exec cv c this s = (r, this', s')"
    by (cases "exec cv c this s") auto
  have p: "P this'"
    using step [OF Cons.prems, of c s] e by (simp add: object_of_def)
  show ?case
  proof (cases "resumable r")
    case True
    then show ?thesis using Cons.IH [OF p] e by simp
  next
    case False
    then show ?thesis using p e by (simp add: object_of_def)
  qed
qed

lemma run_flag:
  "g_is_window_fullscreen (object_of (run cv cs this s)) \<Longrightarrow> g_is_window_fullscreen this"
proof (rule ccontr)
  assume after: "g_is_window_fullscreen (object_of (run cv cs this s))"
  assume before: "\<not> g_is_window_fullscreen this"
  have "\<not> g_is_window_fullscreen (object_of (run cv cs this s))"
    by (rule run_preserves [where P = "\<lambda>t. \<not> g_is_window_fullscreen t", OF _ before])
       (simp add: exec_flag)
  with after show False by simp
qed

lemma run_last_state: "last_state (object_of (run cv cs this s)) = last_state this"
  by (rule run_preserves [where P = "\<lambda>t. last_state t = last_state this"])
     (simp_all add: exec_last_state)

lemma run_keeps_object:
  assumes "list_all (\<lambda>c. \<not> field_writer c) cs"
  shows "object_of (run cv cs this s) = this"
  using assms
proof (induction cs arbitrary: s)
  case Nil
  then show ?case by (simp add: object_of_def)
next
  case (Cons c cs)
  obtain r this' s' where e: "exec cv c this s = (r, this', s')"
    by (cases "exec cv c this s") auto
  have "this' = this"
    using exec_keeps_object [of c cv this s] Cons.prems e by (simp add: object_of_def)
  then show ?case using Cons e by (simp add: object_of_def)
qed

lemma run_frame:
  assumes "list_all (\<lambda>c. fullscreen_request c \<noteq> Some True) cs"
  shows "g_frame_before_fullscreen (object_of (run cv cs this s)) = g_frame_before_fullscreen this"
  using assms
proof (induction cs arbitrary: this s)
  case Nil
  then show ?case by (simp add: object_of_def)
next
  case (Cons c cs)
  obtain r this' s' where e: "exec cv c this s = (r, this', s')"
    by (cases "exec cv c this s") auto
  have f: "g_frame_before_fullscreen this' = g_frame_before_fullscreen this"
    using exec_frame [of c cv this s] Cons.prems e by (simp add: object_of_def)
  show ?case
  proof (cases "resumable r")
    case True
    then show ?thesis using Cons f e by simp
  next
    case False
    then show ?thesis using f e by (simp add: object_of_def)
  qed
qed

subsection \<open>The fullscreen flag\<close>

text \<open>
  C1. \<^verbatim>\<open>IsFullScreen\<close> returns the flag \<^verbatim>\<open>g_is_window_fullscreen\<close>. After any call the
  flag is false when the call was a \<^verbatim>\<open>SetFullScreen\<close> that took the leaving branch and
  is what it was before otherwise: only the leaving branch writes it, and it writes
  false. So no sequence of calls makes a false flag true, and after a \<^verbatim>\<open>SetFullScreen\<close>
  with \<^verbatim>\<open>isFullScreen = true\<close> \<^verbatim>\<open>IsFullScreen\<close> returns what it returned before.
\<close>

theorem fullscreen_flag_only_cleared:
  "result_of (IsFullScreen this s) = Inr (RetBool (g_is_window_fullscreen this))
   \<and> g_is_window_fullscreen (object_of (exec cv c this s)) =
       (if fullscreen_request c = Some False then False else g_is_window_fullscreen this)
   \<and> (g_is_window_fullscreen (object_of (run cv cs this s)) \<longrightarrow> g_is_window_fullscreen this)
   \<and> (arg_bool args ''isFullScreen'' = Inr True \<longrightarrow>
        result_of (IsFullScreen (object_of (SetFullScreen this s args))
                                (desktop_of (SetFullScreen this s args)))
        = result_of (IsFullScreen this s))"
proof (intro conjI impI)
  show "result_of (IsFullScreen this s) = Inr (RetBool (g_is_window_fullscreen this))"
    by (simp add: IsFullScreen_def result_of_def)
  show "g_is_window_fullscreen (object_of (exec cv c this s)) =
       (if fullscreen_request c = Some False then False else g_is_window_fullscreen this)"
    by (rule exec_flag)
  show "g_is_window_fullscreen this" if "g_is_window_fullscreen (object_of (run cv cs this s))"
    using that by (rule run_flag)
  show "result_of (IsFullScreen (object_of (SetFullScreen this s args))
                                (desktop_of (SetFullScreen this s args)))
        = result_of (IsFullScreen this s)"
    if "arg_bool args ''isFullScreen'' = Inr True"
    using that exec_flag [of cv "CallSetFullScreen args" this s]
    by (simp add: IsFullScreen_def result_of_def)
qed

text \<open>
  The theorem at an object whose flag is set (no call sets it; the object is written
  down): entering fullscreen and then asking leaves the flag set, and \<^verbatim>\<open>IsFullScreen\<close>
  answers as before the entering call.
\<close>

theorem fullscreen_flag_only_cleared_witness:
  "arg_bool enter_args ''isFullScreen'' = Inr True
   \<and> g_is_window_fullscreen (object_of
        (run ascii_codec [CallSetFullScreen enter_args, CallIsFullScreen]
           fullscreen_object example_desktop))
   \<and> g_is_window_fullscreen fullscreen_object
   \<and> result_of (IsFullScreen (object_of (SetFullScreen fullscreen_object example_desktop enter_args))
                  (desktop_of (SetFullScreen fullscreen_object example_desktop enter_args)))
      = Inr (RetBool True)"
proof -
  have a: "arg_bool enter_args ''isFullScreen'' = Inr True"
    by (simp add: enter_args_def arg_defs)
  have r: "g_is_window_fullscreen (object_of
        (run ascii_codec [CallSetFullScreen enter_args, CallIsFullScreen]
           fullscreen_object example_desktop))"
    using a
    by (simp add: SetFullScreen_def IsFullScreen_def GetMainWindow_def os_defs Let_def
        object_of_def example_desktop_def fullscreen_object_def)
  have i: "result_of (IsFullScreen fullscreen_object example_desktop) = Inr (RetBool True)"
    by (simp add: IsFullScreen_def result_of_def fullscreen_object_def)
  show ?thesis
    using fullscreen_flag_only_cleared
      [of fullscreen_object example_desktop ascii_codec CallIsFullScreen
          "[CallSetFullScreen enter_args, CallIsFullScreen]" enter_args]
      a r i
    by simp
qed

subsection \<open>The frame of the methods\<close>

lemma SetMinimumSize_frame:
  "object_of (SetMinimumSize this s args) =
     this\<lparr>minimum_size := minimum_size (object_of (SetMinimumSize this s args))\<rparr>"
  by (simp add: SetMinimumSize_def object_of_def split: sum.splits option.splits)

lemma SetMaximumSize_frame:
  "object_of (SetMaximumSize this s args) =
     this\<lparr>maximum_size := maximum_size (object_of (SetMaximumSize this s args))\<rparr>"
  by (simp add: SetMaximumSize_def object_of_def split: sum.splits option.splits)

lemma SetFullScreen_frame:
  "object_of (SetFullScreen this s args) =
     this\<lparr>g_is_window_fullscreen :=
              g_is_window_fullscreen (object_of (SetFullScreen this s args)),
          g_frame_before_fullscreen :=
              g_frame_before_fullscreen (object_of (SetFullScreen this s args))\<rparr>"
  by (simp add: SetFullScreen_def object_of_def Let_def
      split: sum.splits option.splits prod.splits)

text \<open>
  C10. A call of a method other than \<^verbatim>\<open>SetMinimumSize\<close>, \<^verbatim>\<open>SetMaximumSize\<close> and
  \<^verbatim>\<open>SetFullScreen\<close> returns the object with all five data members as they were; the
  queries are among these calls. \<^verbatim>\<open>SetMinimumSize\<close> changes \<^verbatim>\<open>minimum_size\<close> at most,
  \<^verbatim>\<open>SetMaximumSize\<close> changes \<^verbatim>\<open>maximum_size\<close> at most, \<^verbatim>\<open>SetFullScreen\<close> changes the
  flag and the rectangle at most. No call changes \<^verbatim>\<open>last_state\<close>, which is
  \<^verbatim>\<open>STATE_NORMAL\<close> after every sequence of calls on a new object.
\<close>

theorem only_three_methods_write_members:
  "(\<not> field_writer c \<longrightarrow> object_of (exec cv c this s) = this)
   \<and> list_all (\<lambda>q. \<not> field_writer q)
        [CallIsVisible, CallIsMaximized, CallIsMinimized, CallIsFullScreen,
         CallIsAlwaysOnTop, CallGetBounds args, CallGetTitle]
   \<and> (list_all (\<lambda>q. \<not> field_writer q) cs \<longrightarrow> object_of (run cv cs this s) = this)
   \<and> object_of (SetMinimumSize this s args) =
        this\<lparr>minimum_size := minimum_size (object_of (SetMinimumSize this s args))\<rparr>
   \<and> object_of (SetMaximumSize this s args) =
        this\<lparr>maximum_size := maximum_size (object_of (SetMaximumSize this s args))\<rparr>
   \<and> object_of (SetFullScreen this s args) =
        this\<lparr>g_is_window_fullscreen :=
                 g_is_window_fullscreen (object_of (SetFullScreen this s args)),
             g_frame_before_fullscreen :=
                 g_frame_before_fullscreen (object_of (SetFullScreen this s args))\<rparr>
   \<and> last_state (object_of (exec cv c this s)) = last_state this
   \<and> last_state (object_of (run cv cs NativeWindow_new s)) = STATE_NORMAL"
proof (intro conjI impI)
  show "object_of (exec cv c this s) = this" if "\<not> field_writer c"
    using that by (rule exec_keeps_object)
  show "object_of (run cv cs this s) = this" if "list_all (\<lambda>q. \<not> field_writer q) cs"
    using that by (rule run_keeps_object)
  show "last_state (object_of (run cv cs NativeWindow_new s)) = STATE_NORMAL"
    by (simp add: run_last_state NativeWindow_new_def)
qed (simp_all add: exec_last_state SetMinimumSize_frame [symmetric]
      SetMaximumSize_frame [symmetric] SetFullScreen_frame [symmetric])

text \<open>
  The theorem at a new object and the example window: a \<^verbatim>\<open>Maximize\<close>, and a sequence
  of a \<^verbatim>\<open>GetBounds\<close>, a \<^verbatim>\<open>Maximize\<close> and a \<^verbatim>\<open>GetTitle\<close>, leave the object as the
  constructor made it.
\<close>

theorem only_three_methods_write_members_witness:
  "\<not> field_writer CallMaximize
   \<and> object_of (exec ascii_codec CallMaximize NativeWindow_new example_desktop) = NativeWindow_new
   \<and> list_all (\<lambda>q. \<not> field_writer q) [CallGetBounds ratio_two_args, CallMaximize, CallGetTitle]
   \<and> object_of (run ascii_codec [CallGetBounds ratio_two_args, CallMaximize, CallGetTitle]
        NativeWindow_new example_desktop) = NativeWindow_new"
  using only_three_methods_write_members
    [of CallMaximize ascii_codec NativeWindow_new example_desktop ratio_two_args
        "[CallGetBounds ratio_two_args, CallMaximize, CallGetTitle]"]
  by simp

subsection \<open>Entering and leaving fullscreen\<close>

lemma rect_query_eq: "rect_query this s = map_option rect (win s)"
  by (simp add: rect_query_def GetMainWindow_def os_defs split: option.splits)

lemma enter_with_window:
  assumes "win s = Some w" "arg_bool a ''isFullScreen'' = Inr True"
  shows "object_of (SetFullScreen this s a) = this\<lparr>g_frame_before_fullscreen := Some (rect w)\<rparr>"
    and "result_of (SetFullScreen this s a) = Inr Void"
    and "win (desktop_of (SetFullScreen this s a)) \<noteq> None"
  using assms
  by (simp_all add: SetFullScreen_def GetMainWindow_def out_defs os_defs Let_def)

lemma leave_with_window:
  assumes "win s = Some w" "g_frame_before_fullscreen this = Some f"
    "arg_bool a ''isFullScreen'' = Inr False"
  shows "map_option rect (win (desktop_of (SetFullScreen this s a))) = Some f"
  using assms
  by (simp add: SetFullScreen_def GetMainWindow_def out_defs os_defs Let_def
      sw_defs swp_defs ws_defs)

lemma leave_defined:
  assumes "g_frame_before_fullscreen this = Some f" "arg_bool a ''isFullScreen'' = Inr False"
  shows "result_of (SetFullScreen this s a) = Inr Void"
    and "new_calls s (desktop_of (SetFullScreen this s a)) =
      [Call_GetAncestor,
       Call_GetWindowPlacement (fst (GetMainWindow this s)),
       Call_SetWindowLongPtr (fst (GetMainWindow this s)) GWL_STYLE
         (WS_OVERLAPPEDWINDOW OR WS_VISIBLE),
       Call_SetWindowPos (fst (GetMainWindow this s)) HWND_TOP (rc_left f) (rc_top f)
         (rc_right f - rc_left f) (rc_bottom f - rc_top f) SWP_SHOWWINDOW,
       Call_ShowWindow (fst (GetMainWindow this s)) SW_RESTORE]"
  using assms
  by (simp_all add: SetFullScreen_def GetMainWindow_def out_defs api_defs on_window_def
      target_def logged_def new_calls_def Let_def split: option.splits HWND.splits)

lemma leave_unwritten:
  assumes "g_frame_before_fullscreen this = None" "arg_bool a ''isFullScreen'' = Inr False"
  shows "result_of (SetFullScreen this s a) = Inl undefined_behaviour"
    and "new_calls s (desktop_of (SetFullScreen this s a)) =
      [Call_GetAncestor,
       Call_GetWindowPlacement (fst (GetMainWindow this s)),
       Call_SetWindowLongPtr (fst (GetMainWindow this s)) GWL_STYLE
         (WS_OVERLAPPEDWINDOW OR WS_VISIBLE)]"
  using assms
  by (simp_all add: SetFullScreen_def GetMainWindow_def out_defs api_defs on_window_def
      target_def logged_def new_calls_def Let_def split: option.splits HWND.splits)

lemma enter_calls:
  assumes "arg_bool a ''isFullScreen'' = Inr True"
  shows "new_calls s (desktop_of (SetFullScreen this s a)) =
     [Call_GetAncestor,
      Call_GetWindowPlacement (fst (GetMainWindow this s)),
      Call_MonitorFromWindow (fst (GetMainWindow this s)),
      Call_GetMonitorInfo MONITOR_NEAREST,
      Call_SetWindowLongPtr (fst (GetMainWindow this s)) GWL_STYLE (WS_POPUP OR WS_VISIBLE),
      Call_GetWindowRect (fst (GetMainWindow this s)),
      Call_SetWindowPos (fst (GetMainWindow this s)) HWND_TOP
        (rc_left (nearest_monitor s)) (rc_top (nearest_monitor s))
        (rc_right (nearest_monitor s) - rc_left (nearest_monitor s))
        (rc_bottom (nearest_monitor s) - rc_top (nearest_monitor s)) SWP_SHOWWINDOW,
      Call_ShowWindow (fst (GetMainWindow this s)) SW_MAXIMIZE]"
  using assms
  by (simp add: SetFullScreen_def GetMainWindow_def out_defs api_defs on_window_def
      target_def logged_def new_calls_def Let_def split: option.splits HWND.splits)

lemma run_enter_leave:
  assumes "arg_bool a1 ''isFullScreen'' = Inr True"
  shows "run cv [CallSetFullScreen a1, CallSetFullScreen a2] this s =
     (resumable (result_of (SetFullScreen (object_of (SetFullScreen this s a1))
                               (desktop_of (SetFullScreen this s a1)) a2)),
      object_of (SetFullScreen (object_of (SetFullScreen this s a1))
                               (desktop_of (SetFullScreen this s a1)) a2),
      desktop_of (SetFullScreen (object_of (SetFullScreen this s a1))
                               (desktop_of (SetFullScreen this s a1)) a2))"
proof -
  obtain r1 t1 s1 where e1: "SetFullScreen this s a1 = (r1, t1, s1)"
    by (cases "SetFullScreen this s a1") auto
  have "r1 = Inr Void"
    using e1 assms by (simp add: SetFullScreen_def Let_def split: prod.splits)
  then show ?thesis
    using e1 by (simp add: out_defs split: prod.splits)
qed

text \<open>
  C3. On a desktop whose window answers the rectangle query with \<open>r\<close>, a \<^verbatim>\<open>SetFullScreen\<close>
  with \<^verbatim>\<open>isFullScreen = true\<close> followed by one with \<^verbatim>\<open>isFullScreen = false\<close> runs to its
  end, and the rectangle query then answers \<open>r\<close> again: left, top, right and bottom, and
  so x, y, width and height, are those from before the entering call.
\<close>

theorem fullscreen_round_trip_restores_rectangle:
  assumes "rect_query this s = Some r"
    and "arg_bool a1 ''isFullScreen'' = Inr True"
    and "arg_bool a2 ''isFullScreen'' = Inr False"
  shows "result_of (run cv [CallSetFullScreen a1, CallSetFullScreen a2] this s) = True
    \<and> rect_query (object_of (run cv [CallSetFullScreen a1, CallSetFullScreen a2] this s))
         (desktop_of (run cv [CallSetFullScreen a1, CallSetFullScreen a2] this s)) = Some r"
proof -
  from assms(1) obtain w where w: "win s = Some w" "rect w = r"
    by (auto simp add: rect_query_eq)
  define t1 where "t1 = object_of (SetFullScreen this s a1)"
  define s1 where "s1 = desktop_of (SetFullScreen this s a1)"
  obtain w1 where w1: "win s1 = Some w1"
    using enter_with_window(3) [OF w(1) assms(2), of this] unfolding s1_def by blast
  have f: "g_frame_before_fullscreen t1 = Some r"
    using enter_with_window(1) [OF w(1) assms(2), of this] w(2) unfolding t1_def by simp
  have "map_option rect (win (desktop_of (SetFullScreen t1 s1 a2))) = Some r"
    by (rule leave_with_window [OF w1 f assms(3)])
  moreover have "result_of (SetFullScreen t1 s1 a2) = Inr Void"
    by (rule leave_defined(1) [OF f assms(3)])
  ultimately show ?thesis
    unfolding run_enter_leave [OF assms(2)] t1_def [symmetric] s1_def [symmetric]
    by (simp add: rect_query_eq out_defs)
qed

text \<open>
  The theorem at the example window, whose rectangle is (100, 100, 900, 700).
\<close>

theorem fullscreen_round_trip_restores_rectangle_witness:
  "rect_query NativeWindow_new example_desktop
     = Some \<lparr>rc_left = 100, rc_top = 100, rc_right = 900, rc_bottom = 700\<rparr>
   \<and> arg_bool enter_args ''isFullScreen'' = Inr True
   \<and> arg_bool leave_args ''isFullScreen'' = Inr False
   \<and> rect_query
        (object_of (run ascii_codec [CallSetFullScreen enter_args, CallSetFullScreen leave_args]
           NativeWindow_new example_desktop))
        (desktop_of (run ascii_codec [CallSetFullScreen enter_args, CallSetFullScreen leave_args]
           NativeWindow_new example_desktop))
     = Some \<lparr>rc_left = 100, rc_top = 100, rc_right = 900, rc_bottom = 700\<rparr>"
proof -
  have q: "rect_query NativeWindow_new example_desktop
     = Some \<lparr>rc_left = 100, rc_top = 100, rc_right = 900, rc_bottom = 700\<rparr>"
    by (simp add: rect_query_eq example_desktop_def example_window_def)
  have a1: "arg_bool enter_args ''isFullScreen'' = Inr True"
    by (simp add: enter_args_def arg_defs)
  have a2: "arg_bool leave_args ''isFullScreen'' = Inr False"
    by (simp add: leave_args_def arg_defs)
  show ?thesis
    using fullscreen_round_trip_restores_rectangle [OF q a1 a2, of ascii_codec] q a1 a2
    by simp
qed

lemma steps_simps:
  "steps [] = []"
  "steps (c # cs) = (case step_of c of None \<Rightarrow> steps cs | Some x \<Rightarrow> x # steps cs)"
  by (cases "step_of c"; simp add: steps_def)+

text \<open>
  C4, as the specification states it, does not hold: it puts the capture of the
  rectangle before the switch of the style. At the example window the steps of the
  entering call are not in the stated order.
\<close>

theorem entering_steps_not_in_stated_order:
  "steps (new_calls example_desktop
            (desktop_of (SetFullScreen NativeWindow_new example_desktop enter_args)))
   \<noteq> [Capture, StyleSwitch, Resize, MaximizeShow]"
proof -
  have a: "arg_bool enter_args ''isFullScreen'' = Inr True"
    by (simp add: enter_args_def arg_defs)
  show ?thesis
    by (simp add: enter_calls [OF a] steps_simps sw_defs)
qed

text \<open>
  C4, amended. A \<^verbatim>\<open>SetFullScreen\<close> with \<^verbatim>\<open>isFullScreen = true\<close> makes exactly these
  calls, in this order: it resolves the window, queries its placement, finds the nearest
  monitor and its bounds, switches the style to \<^verbatim>\<open>WS_POPUP | WS_VISIBLE\<close>, then
  captures the window's rectangle, then moves and resizes the window to the monitor's
  bounds, then shows it maximized. The rectangle it captures is still the one the window
  had before the call.
\<close>

theorem entering_steps_in_source_order:
  assumes "arg_bool a ''isFullScreen'' = Inr True"
  shows "new_calls s (desktop_of (SetFullScreen this s a)) =
     [Call_GetAncestor,
      Call_GetWindowPlacement (fst (GetMainWindow this s)),
      Call_MonitorFromWindow (fst (GetMainWindow this s)),
      Call_GetMonitorInfo MONITOR_NEAREST,
      Call_SetWindowLongPtr (fst (GetMainWindow this s)) GWL_STYLE (WS_POPUP OR WS_VISIBLE),
      Call_GetWindowRect (fst (GetMainWindow this s)),
      Call_SetWindowPos (fst (GetMainWindow this s)) HWND_TOP
        (rc_left (nearest_monitor s)) (rc_top (nearest_monitor s))
        (rc_right (nearest_monitor s) - rc_left (nearest_monitor s))
        (rc_bottom (nearest_monitor s) - rc_top (nearest_monitor s)) SWP_SHOWWINDOW,
      Call_ShowWindow (fst (GetMainWindow this s)) SW_MAXIMIZE]
   \<and> steps (new_calls s (desktop_of (SetFullScreen this s a)))
       = [StyleSwitch, Capture, Resize, MaximizeShow]
   \<and> g_frame_before_fullscreen (object_of (SetFullScreen this s a)) =
       (case rect_query this s of
          None \<Rightarrow> g_frame_before_fullscreen this
        | Some r \<Rightarrow> Some r)"
proof (intro conjI)
  show "g_frame_before_fullscreen (object_of (SetFullScreen this s a)) =
       (case rect_query this s of
          None \<Rightarrow> g_frame_before_fullscreen this
        | Some r \<Rightarrow> Some r)"
    using assms
    by (simp add: rect_query_eq SetFullScreen_def GetMainWindow_def out_defs os_defs Let_def
        split: option.splits)
qed (simp_all add: enter_calls [OF assms] steps_simps sw_defs)

text \<open>The theorem at the example window and a new object.\<close>

theorem entering_steps_in_source_order_witness:
  "arg_bool enter_args ''isFullScreen'' = Inr True
   \<and> steps (new_calls example_desktop
              (desktop_of (SetFullScreen NativeWindow_new example_desktop enter_args)))
       = [StyleSwitch, Capture, Resize, MaximizeShow]
   \<and> g_frame_before_fullscreen
        (object_of (SetFullScreen NativeWindow_new example_desktop enter_args))
       = Some \<lparr>rc_left = 100, rc_top = 100, rc_right = 900, rc_bottom = 700\<rparr>"
proof -
  have a: "arg_bool enter_args ''isFullScreen'' = Inr True"
    by (simp add: enter_args_def arg_defs)
  have q: "rect_query NativeWindow_new example_desktop
     = Some \<lparr>rc_left = 100, rc_top = 100, rc_right = 900, rc_bottom = 700\<rparr>"
    by (simp add: rect_query_eq example_desktop_def example_window_def)
  show ?thesis
    using entering_steps_in_source_order [OF a, of example_desktop NativeWindow_new] a q
    by (simp add: steps_simps sw_defs)
qed

text \<open>
  C9. \<^verbatim>\<open>g_frame_before_fullscreen\<close> has no value in a new object, and keeps none
  through every sequence of calls in which no \<^verbatim>\<open>SetFullScreen\<close> takes the entering
  branch. A \<^verbatim>\<open>SetFullScreen\<close> that then takes the leaving branch goes on to reposition
  and resize the window from that member: having switched the style, it reads the
  indeterminate rectangle to build the arguments of \<^verbatim>\<open>SetWindowPos\<close>, which is
  undefined behaviour (the calls listed are those made before the read). An entering
  call whose rectangle query succeeds stores the rectangle, and on an object whose
  rectangle has a value the leaving call is defined: it returns, having passed that
  rectangle to \<^verbatim>\<open>SetWindowPos\<close>.
\<close>

theorem leaving_reads_rectangle_unwritten_until_entered:
  "g_frame_before_fullscreen NativeWindow_new = None
   \<and> (list_all (\<lambda>c. fullscreen_request c \<noteq> Some True) cs \<longrightarrow>
        g_frame_before_fullscreen (object_of (run cv cs NativeWindow_new s)) = None)
   \<and> (list_all (\<lambda>c. fullscreen_request c \<noteq> Some True) cs
        \<and> arg_bool a ''isFullScreen'' = Inr False \<longrightarrow>
        result_of (SetFullScreen (object_of (run cv cs NativeWindow_new s)) s' a)
          = Inl undefined_behaviour
        \<and> new_calls s'
             (desktop_of (SetFullScreen (object_of (run cv cs NativeWindow_new s)) s' a))
          = [Call_GetAncestor,
             Call_GetWindowPlacement
               (fst (GetMainWindow (object_of (run cv cs NativeWindow_new s)) s')),
             Call_SetWindowLongPtr
               (fst (GetMainWindow (object_of (run cv cs NativeWindow_new s)) s')) GWL_STYLE
               (WS_OVERLAPPEDWINDOW OR WS_VISIBLE)])
   \<and> (rect_query this s = Some r \<and> arg_bool a' ''isFullScreen'' = Inr True \<longrightarrow>
        g_frame_before_fullscreen (object_of (SetFullScreen this s a')) = Some r)
   \<and> (g_frame_before_fullscreen this = Some f \<and> arg_bool a ''isFullScreen'' = Inr False \<longrightarrow>
        result_of (SetFullScreen this s a) = Inr Void
        \<and> new_calls s (desktop_of (SetFullScreen this s a)) =
            [Call_GetAncestor,
             Call_GetWindowPlacement (fst (GetMainWindow this s)),
             Call_SetWindowLongPtr (fst (GetMainWindow this s)) GWL_STYLE
               (WS_OVERLAPPEDWINDOW OR WS_VISIBLE),
             Call_SetWindowPos (fst (GetMainWindow this s)) HWND_TOP (rc_left f) (rc_top f)
               (rc_right f - rc_left f) (rc_bottom f - rc_top f) SWP_SHOWWINDOW,
             Call_ShowWindow (fst (GetMainWindow this s)) SW_RESTORE])"
proof (intro conjI impI)
  show new: "g_frame_before_fullscreen NativeWindow_new = None"
    by (simp add: NativeWindow_new_def)
  show "g_frame_before_fullscreen (object_of (run cv cs NativeWindow_new s)) = None"
    if "list_all (\<lambda>c. fullscreen_request c \<noteq> Some True) cs"
    using run_frame [OF that, of cv NativeWindow_new s] new by simp
  {
    assume h: "list_all (\<lambda>c. fullscreen_request c \<noteq> Some True) cs
        \<and> arg_bool a ''isFullScreen'' = Inr False"
    then have n: "g_frame_before_fullscreen (object_of (run cv cs NativeWindow_new s)) = None"
      using run_frame [of cs cv NativeWindow_new s] new by simp
    from h have l: "arg_bool a ''isFullScreen'' = Inr False" by simp
    show "result_of (SetFullScreen (object_of (run cv cs NativeWindow_new s)) s' a)
          = Inl undefined_behaviour"
      by (rule leave_unwritten(1) [OF n l])
    show "new_calls s'
             (desktop_of (SetFullScreen (object_of (run cv cs NativeWindow_new s)) s' a))
          = [Call_GetAncestor,
             Call_GetWindowPlacement
               (fst (GetMainWindow (object_of (run cv cs NativeWindow_new s)) s')),
             Call_SetWindowLongPtr
               (fst (GetMainWindow (object_of (run cv cs NativeWindow_new s)) s')) GWL_STYLE
               (WS_OVERLAPPEDWINDOW OR WS_VISIBLE)]"
      by (rule leave_unwritten(2) [OF n l])
  }
  show "g_frame_before_fullscreen (object_of (SetFullScreen this s a')) = Some r"
    if "rect_query this s = Some r \<and> arg_bool a' ''isFullScreen'' = Inr True"
    using that enter_with_window(1) [of s _ a' this] by (auto simp add: rect_query_eq)
  {
    assume h: "g_frame_before_fullscreen this = Some f \<and> arg_bool a ''isFullScreen'' = Inr False"
    then have f: "g_frame_before_fullscreen this = Some f"
      and l: "arg_bool a ''isFullScreen'' = Inr False" by simp_all
    show "result_of (SetFullScreen this s a) = Inr Void"
      by (rule leave_defined(1) [OF f l])
    show "new_calls s (desktop_of (SetFullScreen this s a)) =
            [Call_GetAncestor,
             Call_GetWindowPlacement (fst (GetMainWindow this s)),
             Call_SetWindowLongPtr (fst (GetMainWindow this s)) GWL_STYLE
               (WS_OVERLAPPEDWINDOW OR WS_VISIBLE),
             Call_SetWindowPos (fst (GetMainWindow this s)) HWND_TOP (rc_left f) (rc_top f)
               (rc_right f - rc_left f) (rc_bottom f - rc_top f) SWP_SHOWWINDOW,
             Call_ShowWindow (fst (GetMainWindow this s)) SW_RESTORE]"
      by (rule leave_defined(2) [OF f l])
  }
qed

text \<open>
  The theorem at the example window: after a \<^verbatim>\<open>Maximize\<close> and a \<^verbatim>\<open>GetTitle\<close> on a new
  object a leaving call reads the unwritten rectangle; an entering call stores the
  window's rectangle; and on an object that holds that rectangle the leaving call
  returns.
\<close>

theorem leaving_reads_rectangle_unwritten_until_entered_witness:
  "list_all (\<lambda>c. fullscreen_request c \<noteq> Some True) [CallMaximize, CallGetTitle]
   \<and> arg_bool leave_args ''isFullScreen'' = Inr False
   \<and> arg_bool enter_args ''isFullScreen'' = Inr True
   \<and> rect_query entered_object example_desktop
       = Some \<lparr>rc_left = 100, rc_top = 100, rc_right = 900, rc_bottom = 700\<rparr>
   \<and> g_frame_before_fullscreen entered_object
       = Some \<lparr>rc_left = 100, rc_top = 100, rc_right = 900, rc_bottom = 700\<rparr>
   \<and> result_of (SetFullScreen
        (object_of (run ascii_codec [CallMaximize, CallGetTitle] NativeWindow_new example_desktop))
        example_desktop leave_args) = Inl undefined_behaviour
   \<and> g_frame_before_fullscreen (object_of (SetFullScreen entered_object example_desktop enter_args))
       = Some \<lparr>rc_left = 100, rc_top = 100, rc_right = 900, rc_bottom = 700\<rparr>
   \<and> result_of (SetFullScreen entered_object example_desktop leave_args) = Inr Void"
proof -
  have c: "list_all (\<lambda>c. fullscreen_request c \<noteq> Some True) [CallMaximize, CallGetTitle]"
    by simp
  have l: "arg_bool leave_args ''isFullScreen'' = Inr False"
    by (simp add: leave_args_def arg_defs)
  have e: "arg_bool enter_args ''isFullScreen'' = Inr True"
    by (simp add: enter_args_def arg_defs)
  have q: "rect_query entered_object example_desktop
       = Some \<lparr>rc_left = 100, rc_top = 100, rc_right = 900, rc_bottom = 700\<rparr>"
    by (simp add: rect_query_eq example_desktop_def example_window_def)
  have f: "g_frame_before_fullscreen entered_object
       = Some \<lparr>rc_left = 100, rc_top = 100, rc_right = 900, rc_bottom = 700\<rparr>"
    by (simp add: entered_object_def)
  show ?thesis
    using leaving_reads_rectangle_unwritten_until_entered
      [of "[CallMaximize, CallGetTitle]" ascii_codec example_desktop leave_args example_desktop
          entered_object "\<lparr>rc_left = 100, rc_top = 100, rc_right = 900, rc_bottom = 700\<rparr>"
          enter_args "\<lparr>rc_left = 100, rc_top = 100, rc_right = 900, rc_bottom = 700\<rparr>"]
      c l e q f
    by simp
qed

subsection \<open>Rounding to binary64\<close>

lemma floor_log2_eq:
  assumes "0 < m"
  shows "\<lfloor>log 2 m\<rfloor> = k \<longleftrightarrow> 2 powi k \<le> m \<and> m < 2 powi (k + 1)"
proof -
  have a: "(2::real) powr (real_of_int k) = 2 powi k"
    by (rule powr_real_of_int') simp_all
  have "(2::real) powr (real_of_int (k + 1)) = 2 powi (k + 1)"
    by (rule powr_real_of_int') simp_all
  then have b: "(2::real) powr (real_of_int k + 1) = 2 powi (k + 1)"
    by simp
  have "\<lfloor>log 2 m\<rfloor> = k \<longleftrightarrow>
      2 powr (real_of_int k) \<le> m \<and> m < 2 powr (real_of_int k + 1)"
    using floor_log_eq_powr_iff [of m 2 k] assms by simp
  then show ?thesis by (simp only: a b)
qed

lemma round_even_of_int: "round_even (of_int n) = n"
  by (simp add: round_even_def)

lemma round_even_ge:
  assumes "of_int a \<le> y"
  shows "a \<le> round_even y"
proof -
  have "a \<le> \<lfloor>y\<rfloor>" using assms by (simp add: le_floor_iff)
  then show ?thesis by (simp add: round_even_def Let_def)
qed

lemma round_even_le:
  assumes "y \<le> of_int b"
  shows "round_even y \<le> b"
proof (cases "y = of_int b")
  case True
  then show ?thesis by (simp add: round_even_of_int)
next
  case False
  with assms have "y < of_int b" by simp
  then have "\<lfloor>y\<rfloor> < b" by (simp add: floor_less_iff)
  then show ?thesis by (simp add: round_even_def Let_def)
qed

lemma quantum_exp_eval:
  assumes "0 < m" "2 powi k \<le> m" "m < 2 powi (k + 1)"
  shows "quantum_exp m = max k (- 1022) - 52"
  using floor_log2_eq [OF assms(1), of k] assms by (simp add: quantum_exp_def)

text \<open>How to compute a rounding: bracket the magnitude between two powers of two.\<close>

lemma round_mag_eval:
  assumes "0 < m" "2 powi k \<le> m" "m < 2 powi (k + 1)"
  shows "round_mag m =
    of_int (round_even (m / 2 powi (max k (- 1022) - 52))) * 2 powi (max k (- 1022) - 52)"
  by (simp only: round_mag_def quantum_exp_eval [OF assms])

lemma quantum_exp_normal:
  assumes "2 powi e \<le> y" "y < 2 powi (e + 1)" "- 1022 \<le> e"
  shows "quantum_exp y = e - 52"
proof -
  have "0 < (2::real) powi e" by simp
  with assms(1) have "0 < y" by linarith
  from quantum_exp_eval [OF this assms(1,2)] assms(3) show ?thesis by simp
qed

lemma quantum_exp_subnormal:
  assumes "0 < y" "y < 2 powi (- 1022)"
  shows "quantum_exp y = - 1074"
proof -
  define k where "k = \<lfloor>log 2 y\<rfloor>"
  have "2 powi k \<le> y"
    using floor_log2_eq [OF assms(1), of k] by (simp add: k_def)
  with assms(2) have lt: "(2::real) powi k < 2 powi (- 1022)" by linarith
  have "k < - 1022"
  proof (rule ccontr)
    assume "\<not> k < - 1022"
    then have "- 1022 \<le> k" by simp
    then have "(2::real) powi (- 1022) \<le> 2 powi k"
      by (rule power_int_increasing) simp
    with lt show False by linarith
  qed
  then show ?thesis by (simp add: quantum_exp_def k_def [symmetric])
qed

lemma round_mag_0: "round_mag 0 = 0"
  by (simp add: round_mag_def round_even_def)

lemma two_powi_split:
  "(2::real) powi (e + 1) = 2 * 2 powi e"
  "(2::real) powi e = 2 ^ 52 * 2 powi (e - 52)"
  by (simp_all add: power_int_add power_int_diff)

text \<open>A significand of at most 53 bits with its exponent is a fixed point of the rounding.\<close>

lemma round_mag_fixed:
  assumes "- 1022 \<le> e" "0 \<le> n" "n \<le> 2 ^ 53" "2 ^ 52 \<le> n \<or> e = - 1022"
  shows "round_mag (of_int n * 2 powi (e - 52)) = of_int n * 2 powi (e - 52)"
proof -
  define q :: real where "q = 2 powi (e - 52)"
  have q: "0 < q" by (simp add: q_def)
  have e: "(2::real) powi e = 2 ^ 52 * q" "(2::real) powi (e + 1) = 2 ^ 53 * q"
    by (simp_all add: q_def power_int_add power_int_diff)
  consider (zero) "n = 0" | (sub) "0 < n" "n < 2 ^ 52" "e = - 1022"
    | (norm) "2 ^ 52 \<le> n" "n < 2 ^ 53" | (top) "n = 2 ^ 53"
    using assms by linarith
  then show ?thesis
  proof cases
    case zero
    then show ?thesis by (simp add: round_mag_0)
  next
    case sub
    have "0 < of_int n * q" using sub(1) q by simp
    moreover have eq: "(2::real) powi (- 1022) = 2 ^ 52 * q"
      using e(1) unfolding sub(3) .
    have "of_int n * q < 2 ^ 52 * q"
      using sub(2) q by simp
    then have "of_int n * q < 2 powi (- 1022)"
      by (simp only: eq)
    ultimately have "quantum_exp (of_int n * q) = - 1074"
      by (rule quantum_exp_subnormal)
    then show ?thesis
      using sub(3) q unfolding q_def [symmetric] round_mag_def
      by (simp add: q_def round_even_of_int)
  next
    case norm
    have "2 powi e \<le> of_int n * q"
      using norm(1) q unfolding e(1) by simp
    moreover have "of_int n * q < 2 powi (e + 1)"
      using norm(2) q unfolding e(2) by simp
    ultimately have "quantum_exp (of_int n * q) = e - 52"
      using assms(1) by (rule quantum_exp_normal)
    then show ?thesis
      using q unfolding q_def [symmetric] round_mag_def
      by (simp add: q_def round_even_of_int)
  next
    case top
    have y: "of_int n * q = 2 powi (e + 1)"
      using top e(2) by simp
    have "quantum_exp (2 powi (e + 1)) = (e + 1) - 52"
      by (rule quantum_exp_normal) (use assms(1) in \<open>simp_all add: power_int_add\<close>)
    moreover have "(2::real) powi (e + 1) / 2 powi (e + 1 - 52) = of_int (2 ^ 52)"
      by (subst two_powi_split(2) [of "e + 1"]) simp
    ultimately have "round_mag (2 powi (e + 1)) = of_int (2 ^ 52) * 2 powi (e + 1 - 52)"
      unfolding round_mag_def by (simp only: round_even_of_int)
    also have "\<dots> = 2 powi (e + 1)"
      using two_powi_split(2) [of "e + 1"] by simp
    finally show ?thesis unfolding q_def [symmetric] y .
  qed
qed

text \<open>What the rounding produces is such a significand with its exponent.\<close>

lemma round_mag_shape:
  assumes "0 < m"
  shows "\<exists>e n. round_mag m = of_int n * 2 powi (e - 52) \<and> - 1022 \<le> e \<and> 0 \<le> n
            \<and> n \<le> 2 ^ 53 \<and> (2 ^ 52 \<le> n \<or> e = - 1022)"
proof -
  define k where "k = \<lfloor>log 2 m\<rfloor>"
  define e where "e = max k (- 1022)"
  define q :: real where "q = 2 powi (e - 52)"
  define n where "n = round_even (m / q)"
  have q: "0 < q" by (simp add: q_def)
  have k: "2 powi k \<le> m" "m < 2 powi (k + 1)"
    using floor_log2_eq [OF assms, of k] by (simp_all add: k_def)
  have r: "round_mag m = of_int n * 2 powi (e - 52)"
    by (simp add: round_mag_def quantum_exp_def n_def q_def e_def k_def)
  have e: "(2::real) powi e = 2 ^ 52 * q" "(2::real) powi (e + 1) = 2 ^ 53 * q"
    by (simp_all add: q_def power_int_add power_int_diff)
  have n0: "0 \<le> n"
    unfolding n_def by (rule round_even_ge) (use assms q in simp)
  show ?thesis
  proof (cases "- 1022 \<le> k")
    case True
    then have ek: "e = k" by (simp add: e_def)
    have "2 ^ 52 * q \<le> m" "m < 2 ^ 53 * q"
      using k e by (simp_all add: ek)
    then have b: "of_int (2 ^ 52) \<le> m / q" "m / q \<le> of_int (2 ^ 53)"
      using q by (simp_all add: field_simps)
    have "2 ^ 52 \<le> n" "n \<le> 2 ^ 53"
      unfolding n_def by (rule round_even_ge [OF b(1)], rule round_even_le [OF b(2)])
    then show ?thesis using r n0 True ek by blast
  next
    case False
    then have ek: "e = - 1022" by (simp add: e_def)
    from False have "k + 1 \<le> - 1022" by simp
    then have "(2::real) powi (k + 1) \<le> 2 powi (- 1022)"
      by (rule power_int_increasing) simp
    with k(2) have "m < 2 powi e" by (simp add: ek)
    then have "m / q \<le> of_int (2 ^ 52)"
      using q e(1) by (simp add: field_simps)
    then have "n \<le> 2 ^ 52"
      unfolding n_def by (rule round_even_le)
    then have "n \<le> 2 ^ 53" by simp
    then show ?thesis using r n0 ek by blast
  qed
qed

lemma round_mag_idem: "0 \<le> m \<Longrightarrow> round_mag (round_mag m) = round_mag m"
proof (cases "m = 0")
  case True
  then show ?thesis by (simp add: round_mag_0)
next
  case False
  assume "0 \<le> m"
  with False have "0 < m" by simp
  from round_mag_shape [OF this] obtain e n where
    s: "round_mag m = of_int n * 2 powi (e - 52)" "- 1022 \<le> e" "0 \<le> n" "n \<le> 2 ^ 53"
       "2 ^ 52 \<le> n \<or> e = - 1022" by blast
  show ?thesis unfolding s(1) by (rule round_mag_fixed [OF s(2-5)])
qed

lemma round_mag_nonneg: "0 \<le> m \<Longrightarrow> 0 \<le> round_mag m"
  by (cases "m = 0") (use round_mag_shape [of m] in \<open>auto simp add: round_mag_0\<close>)

text \<open>Integers below \<open>2 ^ 53\<close> are numbers of the format.\<close>

lemma round_mag_of_int:
  assumes "0 \<le> k" "k < 2 ^ 53"
  shows "round_mag (of_int k) = of_int k"
proof (cases "k = 0")
  case True
  then show ?thesis by (simp add: round_mag_0)
next
  case False
  with assms have pos: "0 < (of_int k :: real)" by simp
  define e where "e = \<lfloor>log 2 (of_int k)\<rfloor>"
  have b: "2 powi e \<le> (of_int k :: real)" "(of_int k :: real) < 2 powi (e + 1)"
    using floor_log2_eq [OF pos, of e] by (simp_all add: e_def)
  have k1: "1 \<le> (of_int k :: real)"
    using False assms(1) by simp
  have e0: "0 \<le> e"
  proof (rule ccontr)
    assume "\<not> 0 \<le> e"
    then have "e + 1 \<le> 0" by simp
    then have "(2::real) powi (e + 1) \<le> 2 powi 0"
      by (rule power_int_increasing) simp
    with b(2) k1 show False by simp
  qed
  have e52: "e \<le> 52"
  proof (rule ccontr)
    assume "\<not> e \<le> 52"
    then have "53 \<le> e" by simp
    then have "(2::real) powi 53 \<le> 2 powi e"
      by (rule power_int_increasing) simp
    moreover have "(of_int k :: real) < 2 ^ 53"
      using assms(2) by (metis of_int_less_iff of_int_numeral of_int_power)
    ultimately show False using b(1) by simp
  qed
  define n where "n = k * 2 ^ nat (52 - e)"
  have p: "(2::real) powi (52 - e) = 2 ^ nat (52 - e)"
    using e52 by (simp add: power_int_def)
  have n: "(of_int n :: real) = of_int k * 2 powi (52 - e)"
    by (simp add: n_def p)
  have c: "(2::real) powi (52 - e) * 2 powi (e - 52) = 1"
    by (simp flip: power_int_add)
  have k: "(of_int k :: real) = of_int n * 2 powi (e - 52)"
    unfolding n using c by (simp add: mult.assoc)
  have pp: "0 < (2::real) powi (52 - e)" by simp
  have "(2::real) powi e * 2 powi (52 - e) = 2 ^ 52"
    by (simp flip: power_int_add)
  then have "(2::real) ^ 52 \<le> of_int n"
    unfolding n using b(1) pp by (metis mult_right_mono less_imp_le)
  then have "(of_int (2 ^ 52) :: real) \<le> of_int n" by simp
  then have "2 ^ 52 \<le> n" by (simp only: of_int_le_iff)
  moreover have "(2::real) powi (e + 1) * 2 powi (52 - e) = 2 ^ 53"
    by (simp flip: power_int_add)
  then have "of_int n \<le> (2::real) ^ 53"
    unfolding n using b(2) pp by (metis mult_right_mono less_imp_le)
  then have "(of_int n :: real) \<le> of_int (2 ^ 53)" by simp
  then have "n \<le> 2 ^ 53" by (simp only: of_int_le_iff)
  moreover have "0 \<le> n" using assms(1) by (simp add: n_def)
  ultimately have "round_mag (of_int n * 2 powi (e - 52)) = of_int n * 2 powi (e - 52)"
    using e0 by (intro round_mag_fixed) simp_all
  then show ?thesis by (simp only: k [symmetric])
qed

subsection \<open>The operations give numbers of the format\<close>

lemma is_double_mk_inf: "is_double (mk_inf neg)"
  by (simp add: mk_inf_def)

lemma is_double_mk_zero: "is_double (mk_finite neg 0)"
  by (simp add: mk_finite_def round_mag_0)

lemma is_double_round64: 
  assumes "0 \<le> m"
  shows "is_double (round64 neg m)"
proof (cases "2 ^ 1024 \<le> round_mag m")
  case True
  then show ?thesis by (simp only: round64_def if_True is_double_mk_inf)
next
  case False
  then have r: "round64 neg m = mk_finite neg (round_mag m)"
    by (simp only: round64_def if_False)
  show ?thesis
  proof (cases "round_mag m = 0")
    case True
    then show ?thesis unfolding r by (simp only: is_double_mk_zero)
  next
    case nz: False
    have nn: "0 \<le> round_mag m" by (rule round_mag_nonneg [OF assms])
    have "mk_finite neg (round_mag m) = Finite (if neg then - round_mag m else round_mag m)"
      using nz by (simp only: mk_finite_def if_False)
    moreover have "\<bar>if neg then - round_mag m else round_mag m\<bar> = round_mag m"
      using nn by (cases neg) simp_all
    ultimately show ?thesis
      unfolding r using False round_mag_idem [OF assms]
      by (simp only: is_double.simps not_le simp_thms)
  qed
qed


lemma magnitude_nonneg: "0 \<le> magnitude a"
  by (cases a) simp_all

lemma is_double_ddiv: "is_double (ddiv a b)"
  by (simp add: ddiv_def is_double_mk_inf is_double_mk_zero is_double_round64 magnitude_nonneg)

lemma is_double_dmul: "is_double (dmul a b)"
  by (simp add: dmul_def is_double_mk_inf is_double_round64 magnitude_nonneg)

lemma is_double_of_int:
  assumes "\<bar>k\<bar> < 2 ^ 53"
  shows "is_double (Finite (of_int k))"
proof -
  have a: "\<bar>real_of_int k\<bar> = of_int \<bar>k\<bar>" by simp
  have "round_mag (of_int \<bar>k\<bar>) = of_int \<bar>k\<bar>"
    by (rule round_mag_of_int) (use assms in simp_all)
  moreover have "(of_int \<bar>k\<bar> :: real) < of_int (2 ^ 53)"
    using assms by (simp only: of_int_less_iff)
  then have "(of_int \<bar>k\<bar> :: real) < 2 ^ 1024" by simp
  ultimately show ?thesis by (simp only: is_double.simps a simp_thms)
qed

lemma is_double_of_LONG: "is_double (double_of_LONG n)"
proof -
  have "- (2 ^ 31) \<le> sint n" "sint n < 2 ^ 31"
    using sint_range_size [of n] by (simp_all add: word_size)
  then have "\<bar>sint n\<bar> < 2 ^ 53" by simp
  then show ?thesis unfolding double_of_LONG_def by (rule is_double_of_int)
qed

text \<open>Multiplying a number of the format by \<^verbatim>\<open>1.0f\<close> gives that number.\<close>

lemma dmul_one_f:
  assumes "is_double a"
  shows "dmul a one_f = a"
proof (cases a)
  case (Finite r)
  from assms have r: "round_mag \<bar>r\<bar> = \<bar>r\<bar>" "\<not> 2 ^ 1024 \<le> \<bar>r\<bar>"
    by (simp_all add: Finite)
  have "dmul a one_f = round64 (r < 0) \<bar>r\<bar>"
    by (simp add: dmul_def one_f_def Finite)
  also have "\<dots> = mk_finite (r < 0) \<bar>r\<bar>"
    by (simp only: round64_def r if_False)
  also have "\<dots> = Finite r"
    by (simp add: mk_finite_def)
  finally show ?thesis by (simp only: Finite)
qed (simp_all add: dmul_def one_f_def mk_inf_def round64_def mk_finite_def round_mag_0)

subsection \<open>Roundings at particular numbers\<close>

lemma round64_of_int:
  assumes "0 \<le> k" "k < 2 ^ 53"
  shows "round64 neg (of_int k) = mk_finite neg (of_int k)"
proof -
  have r: "round_mag (of_int k) = of_int k"
    by (rule round_mag_of_int [OF assms])
  have "(of_int k :: real) < of_int (2 ^ 53)"
    using assms(2) by (simp only: of_int_less_iff)
  then have "\<not> 2 ^ 1024 \<le> (of_int k :: real)" by simp
  then show ?thesis by (simp only: round64_def r if_False)
qed

lemma round64_value:
  assumes "round_mag m = v" "v < 2 ^ 1024"
  shows "round64 neg m = mk_finite neg v"
  using assms by (simp add: round64_def)

lemma round_mag_100_3: "round_mag (100 / 3) = 4691249611844267 / 2 ^ 47"
  using round_mag_eval [of "100 / 3" 5]
  by (simp add: round_even_def power_int_minus field_simps)

lemma round_mag_800_3: "round_mag (800 / 3) = 4691249611844267 / 2 ^ 44"
  using round_mag_eval [of "800 / 3" 8]
  by (simp add: round_even_def power_int_minus field_simps)




lemma round_mag_2_4_by_1_25: "round_mag (5404319552844595 / 2 ^ 51 * (5 / 4)) = 3"
  using round_mag_eval [of "5404319552844595 / 2 ^ 51 * (5 / 4)" 1]
  by (simp add: round_even_def power_int_minus field_simps)

lemma ddiv_100_2: "ddiv (Finite 100) (Finite 2) = Finite 50"
  using round64_of_int [of 50 False] by (simp add: ddiv_def mk_finite_def)

lemma ddiv_800_2: "ddiv (Finite 800) (Finite 2) = Finite 400"
  using round64_of_int [of 400 False] by (simp add: ddiv_def mk_finite_def)

lemma ddiv_600_2: "ddiv (Finite 600) (Finite 2) = Finite 300"
  using round64_of_int [of 300 False] by (simp add: ddiv_def mk_finite_def)

lemma ddiv_100_3: "ddiv (Finite 100) (Finite 3) = Finite (4691249611844267 / 2 ^ 47)"
  using round64_value [OF round_mag_100_3, of False] by (simp add: ddiv_def mk_finite_def)

lemma ddiv_800_3: "ddiv (Finite 800) (Finite 3) = Finite (4691249611844267 / 2 ^ 44)"
  using round64_value [OF round_mag_800_3, of False] by (simp add: ddiv_def mk_finite_def)

lemma ddiv_600_3: "ddiv (Finite 600) (Finite 3) = Finite 200"
  using round64_of_int [of 200 False] by (simp add: ddiv_def mk_finite_def)




lemma dmul_2_4_by_1_25: "dmul double_2_4 (Finite (5 / 4)) = Finite 3"
  using round64_value [OF round_mag_2_4_by_1_25, of False]
  by (simp add: dmul_def mk_finite_def double_2_4_def)


text \<open>A quotient too large for the format is an infinity.\<close>

lemma ddiv_overflow: "ddiv (Finite 100) (Finite (1 / 2 ^ 1074)) = PosInf"
proof -
  have "round_mag (100 * 2 ^ 1074) = 100 * 2 ^ 1074"
    using round_mag_eval [of "100 * 2 ^ 1074" 1080]
    by (simp add: round_even_def)
  then show ?thesis
    by (simp add: ddiv_def round64_def mk_inf_def)
qed

subsection \<open>The bounds of the window\<close>

lemma GetBounds_answered:
  assumes "rect_query this s = Some r" "arg_double args ''devicePixelRatio'' = Inr d"
  shows "result_of (GetBounds this s args) =
     Inr (RetMap
       [EString ''x'' \<mapsto> EDouble (ddiv (double_of_LONG (rc_left r)) d),
        EString ''y'' \<mapsto> EDouble (ddiv (double_of_LONG (rc_top r)) d),
        EString ''width'' \<mapsto> EDouble (ddiv (double_of_LONG (rc_right r - rc_left r)) d),
        EString ''height'' \<mapsto> EDouble (ddiv (double_of_LONG (rc_bottom r - rc_top r)) d)])"
  using assms
  by (auto simp add: rect_query_eq GetBounds_def GetMainWindow_def out_defs os_defs Let_def
      dmul_one_f is_double_ddiv)

lemma example_rect:
  "rect_query NativeWindow_new example_desktop
     = Some \<lparr>rc_left = 100, rc_top = 100, rc_right = 900, rc_bottom = 700\<rparr>"
  by (simp add: rect_query_eq example_desktop_def example_window_def)

lemma GetBounds_example:
  "result_of (GetBounds NativeWindow_new example_desktop ratio_two_args) =
     Inr (RetMap
       [EString ''x'' \<mapsto> EDouble (Finite 50),
        EString ''y'' \<mapsto> EDouble (Finite 50),
        EString ''width'' \<mapsto> EDouble (Finite 400),
        EString ''height'' \<mapsto> EDouble (Finite 300)])"
proof -
  have a: "arg_double ratio_two_args ''devicePixelRatio'' = Inr (Finite 2)"
    by (simp add: ratio_two_args_def arg_defs)
  show ?thesis
    by (simp add: GetBounds_answered [OF example_rect a] double_of_LONG_def
        ddiv_100_2 ddiv_800_2 ddiv_600_2)
qed

text \<open>
  C5. When the rectangle query answers \<open>r\<close> and the argument map holds a double \<open>d\<close> under
  \<^verbatim>\<open>devicePixelRatio\<close>, \<^verbatim>\<open>GetBounds\<close> returns the map with exactly the keys \<^verbatim>\<open>x\<close>,
  \<^verbatim>\<open>y\<close>, \<^verbatim>\<open>width\<close> and \<^verbatim>\<open>height\<close>, holding the left edge, the top edge, the width
  \<open>right - left\<close> and the height \<open>bottom - top\<close> of \<open>r\<close>, each divided by \<open>d\<close> in binary64
  (the quotient rounded to the nearest double; the multiplication by \<^verbatim>\<open>1.0f\<close> changes
  nothing). For the window whose rectangle has left and top 100, width 800 and height
  600 and the ratio 2 the map holds 50, 50, 400 and 300.
\<close>

theorem GetBounds_divides_rectangle_by_ratio:
  "(rect_query this s = Some r \<and> arg_double args ''devicePixelRatio'' = Inr d \<longrightarrow>
      result_of (GetBounds this s args) =
        Inr (RetMap
          [EString ''x'' \<mapsto> EDouble (ddiv (double_of_LONG (rc_left r)) d),
           EString ''y'' \<mapsto> EDouble (ddiv (double_of_LONG (rc_top r)) d),
           EString ''width'' \<mapsto> EDouble (ddiv (double_of_LONG (rc_right r - rc_left r)) d),
           EString ''height'' \<mapsto> EDouble (ddiv (double_of_LONG (rc_bottom r - rc_top r)) d)]))
   \<and> rect_query NativeWindow_new example_desktop
       = Some \<lparr>rc_left = 100, rc_top = 100, rc_right = 100 + 800, rc_bottom = 100 + 600\<rparr>
   \<and> arg_double ratio_two_args ''devicePixelRatio'' = Inr (Finite 2)
   \<and> result_of (GetBounds NativeWindow_new example_desktop ratio_two_args) =
        Inr (RetMap
          [EString ''x'' \<mapsto> EDouble (Finite 50),
           EString ''y'' \<mapsto> EDouble (Finite 50),
           EString ''width'' \<mapsto> EDouble (Finite 400),
           EString ''height'' \<mapsto> EDouble (Finite 300)])"
proof (intro conjI impI)
  show "rect_query NativeWindow_new example_desktop
       = Some \<lparr>rc_left = 100, rc_top = 100, rc_right = 100 + 800, rc_bottom = 100 + 600\<rparr>"
    by (simp add: example_rect)
  show "arg_double ratio_two_args ''devicePixelRatio'' = Inr (Finite 2)"
    by (simp add: ratio_two_args_def arg_defs)
qed (simp_all add: GetBounds_answered GetBounds_example)

text \<open>
  The theorem at the example window with the ratio 3, where three of the quotients are
  not numbers of the format: 100 / 3 becomes 4691249611844267 / 2 ^ 47 (in C notation
  \<^verbatim>\<open>0x1.0aaaaaaaaaaabp+5\<close>), 800 / 3 becomes 4691249611844267 / 2 ^ 44, and 600 / 3 is
  200.
\<close>

theorem GetBounds_divides_rectangle_by_ratio_witness:
  "rect_query NativeWindow_new example_desktop
     = Some \<lparr>rc_left = 100, rc_top = 100, rc_right = 900, rc_bottom = 700\<rparr>
   \<and> arg_double ratio_three_args ''devicePixelRatio'' = Inr (Finite 3)
   \<and> result_of (GetBounds NativeWindow_new example_desktop ratio_three_args) =
        Inr (RetMap
          [EString ''x'' \<mapsto> EDouble (Finite (4691249611844267 / 2 ^ 47)),
           EString ''y'' \<mapsto> EDouble (Finite (4691249611844267 / 2 ^ 47)),
           EString ''width'' \<mapsto> EDouble (Finite (4691249611844267 / 2 ^ 44)),
           EString ''height'' \<mapsto> EDouble (Finite 200)])"
proof -
  have a: "arg_double ratio_three_args ''devicePixelRatio'' = Inr (Finite 3)"
    by (simp add: ratio_three_args_def arg_defs)
  have "result_of (GetBounds NativeWindow_new example_desktop ratio_three_args) =
        Inr (RetMap
          [EString ''x'' \<mapsto> EDouble (ddiv (double_of_LONG 100) (Finite 3)),
           EString ''y'' \<mapsto> EDouble (ddiv (double_of_LONG 100) (Finite 3)),
           EString ''width'' \<mapsto> EDouble (ddiv (double_of_LONG (900 - 100)) (Finite 3)),
           EString ''height'' \<mapsto> EDouble (ddiv (double_of_LONG (700 - 100)) (Finite 3))])"
    using GetBounds_divides_rectangle_by_ratio
      [of NativeWindow_new example_desktop
          "\<lparr>rc_left = 100, rc_top = 100, rc_right = 900, rc_bottom = 700\<rparr>"
          ratio_three_args "Finite 3"] example_rect a
    by simp
  then show ?thesis
    using example_rect a
    by (simp add: double_of_LONG_def ddiv_100_3 ddiv_800_3 ddiv_600_3)
qed

text \<open>
  C6. When the rectangle query fails, \<^verbatim>\<open>GetBounds\<close> returns the empty map, whatever
  double the argument map holds under \<^verbatim>\<open>devicePixelRatio\<close>.
\<close>

theorem GetBounds_empty_when_query_fails:
  assumes "rect_query this s = None"
    and "arg_double args ''devicePixelRatio'' = Inr d"
  shows "result_of (GetBounds this s args) = Inr (RetMap Map.empty)"
proof -
  from assms(1) have none: "win s = None"
    by (simp add: rect_query_eq)
  have failed: "fst (GetWindowRect (fst (GetMainWindow this s)) (snd (GetMainWindow this s))) = None"
    using none by (simp add: GetMainWindow_def GetAncestor_def GetWindowRect_def target_def)
  obtain mainWindow s1 where m: "GetMainWindow this s = (mainWindow, s1)"
    by (cases "GetMainWindow this s") auto
  obtain queried s2 where q: "GetWindowRect mainWindow s1 = (queried, s2)"
    by (cases "GetWindowRect mainWindow s1") auto
  from failed m q have "queried = None" by simp
  then show ?thesis
    using assms(2) m q by (simp add: GetBounds_def result_of_def)
qed

text \<open>The theorem on the desktop without a window, with the ratio 2.\<close>

theorem GetBounds_empty_when_query_fails_witness:
  "rect_query NativeWindow_new windowless_desktop = None
   \<and> arg_double ratio_two_args ''devicePixelRatio'' = Inr (Finite 2)
   \<and> result_of (GetBounds NativeWindow_new windowless_desktop ratio_two_args)
       = Inr (RetMap Map.empty)"
proof -
  have q: "rect_query NativeWindow_new windowless_desktop = None"
    by (simp add: rect_query_eq windowless_desktop_def)
  have a: "arg_double ratio_two_args ''devicePixelRatio'' = Inr (Finite 2)"
    by (simp add: ratio_two_args_def arg_defs)
  show ?thesis
    using GetBounds_empty_when_query_fails [OF q a] q a by simp
qed

subsection \<open>The size constraints\<close>








subsection \<open>Maximize and Unmaximize\<close>

lemma minimize_bit: "(v AND WS_MINIMIZE = 0) = (\<not> bit v 29)" for v :: "32 word"
  using and_exp_eq_0_iff_not_bit [of v 29] by (simp add: WS_MINIMIZE_def)

lemma maximize_bit: "(v AND WS_MAXIMIZE = 0) = (\<not> bit v 24)" for v :: "32 word"
  using and_exp_eq_0_iff_not_bit [of v 24] by (simp add: WS_MAXIMIZE_def)

lemma show_state_bits:
  "show_state w =
     (if bit (style w) 29 then SW_SHOWMINIMIZED
      else if bit (style w) 24 then SW_MAXIMIZE else SW_NORMAL)"
  by (simp add: show_state_def minimize_bit maximize_bit)

lemma set_placement_show_state:
  "showCmd p = SW_NORMAL \<or> showCmd p = SW_SHOWMINIMIZED \<or> showCmd p = SW_MAXIMIZE \<Longrightarrow>
   show_state (set_placement s p w) = showCmd p"
  by (auto simp add: set_placement_def apply_show_def Let_def show_state_bits bit_simps
      sw_defs ws_defs)

lemma placement_query_eq:
  "placement_query this s =
     map_option (\<lambda>w. \<lparr>showCmd = show_state w, rcNormalPosition = normal_position w\<rparr>) (win s)"
  by (simp add: placement_query_def GetMainWindow_def api_defs target_def logged_def
      split: option.splits)

lemma Maximize_when_maximized:
  assumes "placement_query this s = Some p" "showCmd p = SW_MAXIMIZE"
  shows "Maximize this s =
     (Inr Void, this,
      s\<lparr>calls := calls s @ [Call_GetAncestor, Call_GetWindowPlacement HWND_ROOT]\<rparr>)"
  using assms
  by (auto simp add: placement_query_eq Maximize_def GetMainWindow_def api_defs target_def
      logged_def)

lemma Unmaximize_when_normal:
  assumes "placement_query this s = Some p" "showCmd p = SW_NORMAL"
  shows "Unmaximize this s =
     (Inr Void, this,
      s\<lparr>calls := calls s @ [Call_GetAncestor, Call_GetWindowPlacement HWND_ROOT]\<rparr>)"
  using assms
  by (auto simp add: placement_query_eq Unmaximize_def GetMainWindow_def api_defs target_def
      logged_def)

lemma Maximize_maximizes:
  assumes "win s = Some w"
  shows "\<exists>p. placement_query this' (desktop_of (Maximize this s)) = Some p
           \<and> showCmd p = SW_MAXIMIZE"
  using assms
  by (simp add: placement_query_eq Maximize_def GetMainWindow_def out_defs api_defs
      on_window_def target_def logged_def set_placement_show_state)

lemma Unmaximize_normalizes:
  assumes "win s = Some w"
  shows "\<exists>p. placement_query this' (desktop_of (Unmaximize this s)) = Some p
           \<and> showCmd p = SW_NORMAL"
  using assms
  by (simp add: placement_query_eq Unmaximize_def GetMainWindow_def out_defs api_defs
      on_window_def target_def logged_def set_placement_show_state)

lemma Maximize_object: "object_of (Maximize this s) = this"
  by (simp add: Maximize_def GetMainWindow_def out_defs Let_def
      split: prod.splits option.splits)

lemma Unmaximize_object: "object_of (Unmaximize this s) = this"
  by (simp add: Unmaximize_def GetMainWindow_def out_defs Let_def
      split: prod.splits option.splits)

lemma Maximize_twice:
  "same_but_log (desktop_of (Maximize this s))
     (desktop_of (Maximize (object_of (Maximize this s)) (desktop_of (Maximize this s))))"
proof (cases "win s")
  case None
  then show ?thesis
    by (simp add: Maximize_def GetMainWindow_def out_defs api_defs target_def logged_def
        same_but_log_def)
next
  case (Some w)
  define s1 where "s1 = desktop_of (Maximize this s)"
  define this1 where "this1 = object_of (Maximize this s)"
  from Maximize_maximizes [OF Some, of this1 this] obtain p where
    p: "placement_query this1 s1 = Some p" "showCmd p = SW_MAXIMIZE"
    unfolding s1_def by blast
  have "same_but_log s1 (desktop_of (Maximize this1 s1))"
    by (simp add: Maximize_when_maximized [OF p] desktop_of_triple same_but_log_def)
  then show ?thesis unfolding s1_def this1_def .
qed

lemma Unmaximize_twice:
  "same_but_log (desktop_of (Unmaximize this s))
     (desktop_of (Unmaximize (object_of (Unmaximize this s)) (desktop_of (Unmaximize this s))))"
proof (cases "win s")
  case None
  then show ?thesis
    by (simp add: Unmaximize_def GetMainWindow_def out_defs api_defs target_def logged_def
        same_but_log_def)
next
  case (Some w)
  define s1 where "s1 = desktop_of (Unmaximize this s)"
  define this1 where "this1 = object_of (Unmaximize this s)"
  from Unmaximize_normalizes [OF Some, of this1 this] obtain p where
    p: "placement_query this1 s1 = Some p" "showCmd p = SW_NORMAL"
    unfolding s1_def by blast
  have "same_but_log s1 (desktop_of (Unmaximize this1 s1))"
    by (simp add: Unmaximize_when_normal [OF p] desktop_of_triple same_but_log_def)
  then show ?thesis unfolding s1_def this1_def .
qed

text \<open>
  C8. When the placement query reports the window maximized, \<^verbatim>\<open>Maximize\<close> makes the two
  queries and no other call, and leaves the object and the window as they are; likewise
  \<^verbatim>\<open>Unmaximize\<close> when the query reports the normal state. A second \<^verbatim>\<open>Maximize\<close> right
  after a first leaves the object and everything on the desktop but the log as the first
  left them, and so does a second \<^verbatim>\<open>Unmaximize\<close>.
\<close>

theorem Maximize_Unmaximize_idempotent:
  "(placement_query this s = Some p \<and> showCmd p = SW_MAXIMIZE \<longrightarrow>
      Maximize this s =
        (Inr Void, this,
         s\<lparr>calls := calls s @ [Call_GetAncestor, Call_GetWindowPlacement HWND_ROOT]\<rparr>))
   \<and> (placement_query this s = Some p \<and> showCmd p = SW_NORMAL \<longrightarrow>
      Unmaximize this s =
        (Inr Void, this,
         s\<lparr>calls := calls s @ [Call_GetAncestor, Call_GetWindowPlacement HWND_ROOT]\<rparr>))
   \<and> object_of (Maximize (object_of (Maximize this s)) (desktop_of (Maximize this s)))
       = object_of (Maximize this s)
   \<and> same_but_log (desktop_of (Maximize this s))
       (desktop_of (Maximize (object_of (Maximize this s)) (desktop_of (Maximize this s))))
   \<and> object_of (Unmaximize (object_of (Unmaximize this s)) (desktop_of (Unmaximize this s)))
       = object_of (Unmaximize this s)
   \<and> same_but_log (desktop_of (Unmaximize this s))
       (desktop_of (Unmaximize (object_of (Unmaximize this s)) (desktop_of (Unmaximize this s))))"
proof (intro conjI impI)
  show "Maximize this s =
        (Inr Void, this,
         s\<lparr>calls := calls s @ [Call_GetAncestor, Call_GetWindowPlacement HWND_ROOT]\<rparr>)"
    if "placement_query this s = Some p \<and> showCmd p = SW_MAXIMIZE"
    using that Maximize_when_maximized [of this s p] by simp
  show "Unmaximize this s =
        (Inr Void, this,
         s\<lparr>calls := calls s @ [Call_GetAncestor, Call_GetWindowPlacement HWND_ROOT]\<rparr>)"
    if "placement_query this s = Some p \<and> showCmd p = SW_NORMAL"
    using that Unmaximize_when_normal [of this s p] by simp
  show "object_of (Maximize (object_of (Maximize this s)) (desktop_of (Maximize this s)))
       = object_of (Maximize this s)"
    by (simp only: Maximize_object)
  show "same_but_log (desktop_of (Maximize this s))
       (desktop_of (Maximize (object_of (Maximize this s)) (desktop_of (Maximize this s))))"
    by (rule Maximize_twice)
  show "object_of (Unmaximize (object_of (Unmaximize this s)) (desktop_of (Unmaximize this s)))
       = object_of (Unmaximize this s)"
    by (simp only: Unmaximize_object)
  show "same_but_log (desktop_of (Unmaximize this s))
       (desktop_of (Unmaximize (object_of (Unmaximize this s)) (desktop_of (Unmaximize this s))))"
    by (rule Unmaximize_twice)
qed

text \<open>
  The theorem at a maximized window for \<^verbatim>\<open>Maximize\<close> and at the example window, which
  is in the normal state, for \<^verbatim>\<open>Unmaximize\<close>.
\<close>

theorem Maximize_Unmaximize_idempotent_witness:
  "placement_query NativeWindow_new maximized_desktop =
     Some \<lparr>showCmd = SW_MAXIMIZE,
           rcNormalPosition = \<lparr>rc_left = 100, rc_top = 100, rc_right = 900, rc_bottom = 700\<rparr>\<rparr>
   \<and> Maximize NativeWindow_new maximized_desktop =
       (Inr Void, NativeWindow_new,
        maximized_desktop\<lparr>calls := [Call_GetAncestor, Call_GetWindowPlacement HWND_ROOT]\<rparr>)
   \<and> placement_query NativeWindow_new example_desktop =
     Some \<lparr>showCmd = SW_NORMAL,
           rcNormalPosition = \<lparr>rc_left = 100, rc_top = 100, rc_right = 900, rc_bottom = 700\<rparr>\<rparr>
   \<and> Unmaximize NativeWindow_new example_desktop =
       (Inr Void, NativeWindow_new,
        example_desktop\<lparr>calls := [Call_GetAncestor, Call_GetWindowPlacement HWND_ROOT]\<rparr>)"
proof -
  have m: "placement_query NativeWindow_new maximized_desktop =
     Some \<lparr>showCmd = SW_MAXIMIZE,
           rcNormalPosition = \<lparr>rc_left = 100, rc_top = 100, rc_right = 900, rc_bottom = 700\<rparr>\<rparr>"
    by (simp add: placement_query_eq maximized_desktop_def example_desktop_def
        example_window_def show_state_def ws_defs sw_defs)
  have n: "placement_query NativeWindow_new example_desktop =
     Some \<lparr>showCmd = SW_NORMAL,
           rcNormalPosition = \<lparr>rc_left = 100, rc_top = 100, rc_right = 900, rc_bottom = 700\<rparr>\<rparr>"
    by (simp add: placement_query_eq example_desktop_def example_window_def show_state_def
        ws_defs sw_defs)
  have cm: "calls maximized_desktop = []"
    by (simp add: maximized_desktop_def example_desktop_def)
  have ce: "calls example_desktop = []"
    by (simp add: example_desktop_def)
  have "Maximize NativeWindow_new maximized_desktop =
       (Inr Void, NativeWindow_new,
        maximized_desktop\<lparr>calls := [Call_GetAncestor, Call_GetWindowPlacement HWND_ROOT]\<rparr>)"
    using Maximize_Unmaximize_idempotent
      [of NativeWindow_new maximized_desktop
          "\<lparr>showCmd = SW_MAXIMIZE,
            rcNormalPosition = \<lparr>rc_left = 100, rc_top = 100, rc_right = 900, rc_bottom = 700\<rparr>\<rparr>"]
      m cm
    by simp
  moreover have "Unmaximize NativeWindow_new example_desktop =
       (Inr Void, NativeWindow_new,
        example_desktop\<lparr>calls := [Call_GetAncestor, Call_GetWindowPlacement HWND_ROOT]\<rparr>)"
    using Maximize_Unmaximize_idempotent
      [of NativeWindow_new example_desktop
          "\<lparr>showCmd = SW_NORMAL,
            rcNormalPosition = \<lparr>rc_left = 100, rc_top = 100, rc_right = 900, rc_bottom = 700\<rparr>\<rparr>"]
      n ce
    by simp
  ultimately show ?thesis using m n by simp
qed

subsection \<open>Missing and wrongly typed arguments\<close>

lemma arg_double_split:
  "P (arg_double args k) \<longleftrightarrow>
     (args (EString k) = None \<longrightarrow> P (Inl out_of_range)) \<and>
     (\<forall>v. args (EString k) = Some v \<longrightarrow> \<not> has_type v TDouble \<longrightarrow> P (Inl bad_variant_access)) \<and>
     (\<forall>d. args (EString k) = Some (EDouble d) \<longrightarrow> P (Inr d))"
  by (cases "args (EString k)"; cases "the (args (EString k))") (simp_all add: arg_defs)

lemma arg_bool_split:
  "P (arg_bool args k) \<longleftrightarrow>
     (args (EString k) = None \<longrightarrow> P (Inl out_of_range)) \<and>
     (\<forall>v. args (EString k) = Some v \<longrightarrow> \<not> has_type v TBool \<longrightarrow> P (Inl bad_variant_access)) \<and>
     (\<forall>b. args (EString k) = Some (EBool b) \<longrightarrow> P (Inr b))"
  by (cases "args (EString k)"; cases "the (args (EString k))") (simp_all add: arg_defs)

lemma arg_string_split:
  "P (arg_string args k) \<longleftrightarrow>
     (args (EString k) = None \<longrightarrow> P (Inl out_of_range)) \<and>
     (\<forall>v. args (EString k) = Some v \<longrightarrow> \<not> has_type v TString \<longrightarrow> P (Inl bad_variant_access)) \<and>
     (\<forall>t. args (EString k) = Some (EString t) \<longrightarrow> P (Inr t))"
  by (cases "args (EString k)"; cases "the (args (EString k))") (simp_all add: arg_defs)

lemma exec_arg_failure:
  "arg_failure (call_args c) (required_args c) = Some e \<Longrightarrow> exec cv c this s = (Inl e, this, s)"
  by (cases c)
     (auto simp add: SetFullScreen_def GetBounds_def SetBounds_def SetMinimumSize_def
        SetMaximumSize_def SetAlwaysOnTop_def SetTitle_def
       split: arg_double_split arg_bool_split arg_string_split if_splits)

lemma well_formed_iff: "well_formed c \<longleftrightarrow> arg_failure (call_args c) (required_args c) = None"
proof -
  have "list_all (arg_ok args) rs \<longleftrightarrow> arg_failure args rs = None" for args rs
    by (induction rs) (auto split: option.splits if_splits)
  then show ?thesis by (simp add: well_formed_def)
qed

lemma arg_failure_kind:
  "arg_failure args rs = Some e \<Longrightarrow> e = out_of_range \<or> e = bad_variant_access"
  by (induction rs) (auto split: option.splits if_splits)

lemma exec_well_formed:
  "well_formed c \<Longrightarrow>
   result_of (exec cv c this s) \<noteq> Inl out_of_range
   \<and> result_of (exec cv c this s) \<noteq> Inl bad_variant_access"
  by (cases c)
     (auto simp add: well_formed_def method_defs result_of_def Let_def
       split: arg_double_split arg_bool_split arg_string_split if_splits prod.splits
         option.splits)

text \<open>
  C2, as the specification states it, does not hold: no method produces
  \<open>InvalidArgument\<close>. \<^verbatim>\<open>SetFullScreen\<close> with an empty argument map ends with
  \<^verbatim>\<open>std::out_of_range\<close>, and with a double under \<^verbatim>\<open>isFullScreen\<close> it ends with
  \<^verbatim>\<open>std::bad_variant_access\<close>.
\<close>

theorem missing_argument_is_not_InvalidArgument:
  "result_of (exec ascii_codec (CallSetFullScreen no_args) NativeWindow_new example_desktop)
     = Inl out_of_range
   \<and> result_of (exec ascii_codec (CallSetFullScreen wrong_type_args) NativeWindow_new
        example_desktop) = Inl bad_variant_access
   \<and> result_of (exec ascii_codec (CallSetFullScreen no_args) NativeWindow_new example_desktop)
     \<noteq> Inl InvalidArgument
   \<and> result_of (exec ascii_codec (CallSetFullScreen wrong_type_args) NativeWindow_new
        example_desktop) \<noteq> Inl InvalidArgument"
  by (simp add: SetFullScreen_def no_args_def wrong_type_args_def arg_defs result_of_def)

text \<open>
  C2, amended. A call whose argument map lacks a required key or holds a value of
  another type under it ends with the C++ exception of the first such argument in the
  order of extraction: \<^verbatim>\<open>std::out_of_range\<close> for a missing key,
  \<^verbatim>\<open>std::bad_variant_access\<close> for a value of another type. The exception leaves the
  method before any call on the window and before any write to the object: the object
  and the desktop, log included, are as they were, and no default value is used. A call
  whose argument map holds every required key with a value of its type ends with neither
  exception.
\<close>

theorem missing_argument_raises_cpp_exception:
  "(arg_failure (call_args c) (required_args c) = Some e \<longrightarrow>
      exec cv c this s = (Inl e, this, s))
   \<and> (\<not> well_formed c \<longrightarrow>
      exec cv c this s = (Inl out_of_range, this, s)
      \<or> exec cv c this s = (Inl bad_variant_access, this, s))
   \<and> (well_formed c \<longrightarrow>
      result_of (exec cv c this s) \<noteq> Inl out_of_range
      \<and> result_of (exec cv c this s) \<noteq> Inl bad_variant_access)"
proof (intro conjI impI)
  show "exec cv c this s = (Inl e, this, s)"
    if "arg_failure (call_args c) (required_args c) = Some e"
    using that by (rule exec_arg_failure)
  show "exec cv c this s = (Inl out_of_range, this, s)
      \<or> exec cv c this s = (Inl bad_variant_access, this, s)"
    if "\<not> well_formed c"
  proof -
    from that obtain e where e: "arg_failure (call_args c) (required_args c) = Some e"
      by (auto simp add: well_formed_iff)
    from arg_failure_kind [OF e] exec_arg_failure [OF e, of cv this s]
    show ?thesis by auto
  qed
  show "result_of (exec cv c this s) \<noteq> Inl out_of_range" if "well_formed c"
    using exec_well_formed [OF that] by simp
  show "result_of (exec cv c this s) \<noteq> Inl bad_variant_access" if "well_formed c"
    using exec_well_formed [OF that] by simp
qed

text \<open>
  The theorem at \<^verbatim>\<open>SetBounds\<close> with a ratio and no \<^verbatim>\<open>x\<close>, at \<^verbatim>\<open>SetFullScreen\<close> with a
  double for the flag, and at \<^verbatim>\<open>SetFullScreen\<close> with a well-formed map.
\<close>

theorem missing_argument_raises_cpp_exception_witness:
  "arg_failure (call_args (CallSetBounds ratio_two_args)) (required_args (CallSetBounds ratio_two_args))
     = Some out_of_range
   \<and> exec ascii_codec (CallSetBounds ratio_two_args) NativeWindow_new example_desktop
     = (Inl out_of_range, NativeWindow_new, example_desktop)
   \<and> \<not> well_formed (CallSetFullScreen wrong_type_args)
   \<and> exec ascii_codec (CallSetFullScreen wrong_type_args) NativeWindow_new example_desktop
     = (Inl bad_variant_access, NativeWindow_new, example_desktop)
   \<and> well_formed (CallSetFullScreen enter_args)
   \<and> result_of (exec ascii_codec (CallSetFullScreen enter_args) NativeWindow_new example_desktop)
     \<noteq> Inl out_of_range"
proof -
  have f: "arg_failure (call_args (CallSetBounds ratio_two_args))
      (required_args (CallSetBounds ratio_two_args)) = Some out_of_range"
    by (simp add: ratio_two_args_def)
  have w: "\<not> well_formed (CallSetFullScreen wrong_type_args)"
    by (simp add: well_formed_def wrong_type_args_def)
  have g: "well_formed (CallSetFullScreen enter_args)"
    by (simp add: well_formed_def enter_args_def)
  have b: "arg_failure (call_args (CallSetFullScreen wrong_type_args))
      (required_args (CallSetFullScreen wrong_type_args)) = Some bad_variant_access"
    by (simp add: wrong_type_args_def)
  have "exec ascii_codec (CallSetBounds ratio_two_args) NativeWindow_new example_desktop
     = (Inl out_of_range, NativeWindow_new, example_desktop)"
    using missing_argument_raises_cpp_exception
      [of "CallSetBounds ratio_two_args" out_of_range ascii_codec NativeWindow_new
          example_desktop] f
    by blast
  moreover have "exec ascii_codec (CallSetFullScreen wrong_type_args) NativeWindow_new
      example_desktop = (Inl bad_variant_access, NativeWindow_new, example_desktop)"
    using missing_argument_raises_cpp_exception
      [of "CallSetFullScreen wrong_type_args" bad_variant_access ascii_codec NativeWindow_new
          example_desktop] b
    by blast
  moreover have "result_of (exec ascii_codec (CallSetFullScreen enter_args) NativeWindow_new
      example_desktop) \<noteq> Inl out_of_range"
    using missing_argument_raises_cpp_exception
      [of "CallSetFullScreen enter_args" out_of_range ascii_codec NativeWindow_new
          example_desktop] g
    by blast
  ultimately show ?thesis using f w g by blast
qed

end
